theory Spec2Isabelle
  imports Main "HOL-Library.Multiset"
begin

section \<open>Queue rotation and conflict resolution of the chores bot\<close>

text \<open>
  The development embeds the handlers of
  \<^verbatim>\<open>handlers/other_core_modules/resolve_conflict.py\<close> and
  \<^verbatim>\<open>handlers/queue_config/reorder_queue.py\<close>.
  A queue is the list \<^verbatim>\<open>q_array\<close> of member documents; each document has the
  keys \<^verbatim>\<open>user_id\<close>, \<^verbatim>\<open>name\<close> and \<^verbatim>\<open>current_turn\<close>.
\<close>

subsection \<open>Data\<close>

record member =
  user_id :: int
  name :: string
  current_turn :: bool

type_synonym queue = "member list"

text \<open>The Python exceptions that the modelled code can raise.\<close>

datatype py_error = TypeError | KeyError | IndexError | ZeroDivisionError

subsection \<open>Looking up the turn holder and the responder\<close>

text \<open>
  Modelled from the spec: \<^verbatim>\<open>get_current_turn\<close> is imported from
  \<^verbatim>\<open>utils/get_db_data.py\<close> but its body is not part of the sources at hand.
  The caller unpacks its result as \<^verbatim>\<open>_, ct_name, ct_pos\<close>, and the spec calls the
  member with \<^verbatim>\<open>current_turn = true\<close> the holder: the function returns the id,
  the name and the index of the first member whose flag is set, and nothing
  when no flag is set.
\<close>

fun find_turn :: "nat \<Rightarrow> queue \<Rightarrow> (int \<times> string \<times> nat) option" where
  "find_turn i [] = None"
| "find_turn i (m # ms) =
     (if current_turn m then Some (user_id m, name m, i) else find_turn (Suc i) ms)"

definition get_current_turn :: "queue \<Rightarrow> (int \<times> string \<times> nat) option" where
  "get_current_turn q = find_turn 0 q"

text \<open>
  The loop of \<^verbatim>\<open>swap_users\<close> that looks for the responder:
  \<^verbatim>\<open>
  user_pos = None
  for index, member in enumerate(q_array):
      if member["user_id"] == call.from_user.id:
          user_pos = index
  \<close>
  The accumulator is overwritten at every match, so the last match wins.
\<close>

fun find_user :: "int \<Rightarrow> nat \<Rightarrow> queue \<Rightarrow> nat option \<Rightarrow> nat option" where
  "find_user uid i [] user_pos = user_pos"
| "find_user uid i (m # ms) user_pos =
     find_user uid (Suc i) ms (if user_id m = uid then Some i else user_pos)"

definition user_position :: "queue \<Rightarrow> int \<Rightarrow> nat option" where
  "user_position q uid = find_user uid 0 q None"

subsection \<open>Reassigning the turn and swapping\<close>

definition set_turn :: "nat \<Rightarrow> bool \<Rightarrow> queue \<Rightarrow> queue" where
  "set_turn i b q = q[i := (q ! i)\<lparr>current_turn := b\<rparr>]"

text \<open>
  Lines 201 and 202 of \<^verbatim>\<open>resolve_conflict.py\<close>:
  \<^verbatim>\<open>
  q_array[ct_pos]["current_turn"] = False
  q_array[(ct_pos + 1) % len(q_array)]["current_turn"] = True
  \<close>
  The first subscript raises IndexError when \<^verbatim>\<open>ct_pos\<close> is out of range (in
  particular on the empty list, before the modulus is taken). The members are
  separate documents, so each assignment changes the flag of one slot; the
  flag is a field of the member and moves with it when slots are exchanged.
\<close>

definition reassign_current_turn :: "nat \<Rightarrow> queue \<Rightarrow> py_error + queue" where
  "reassign_current_turn ct_pos q =
     (if length q \<le> ct_pos then Inl IndexError
      else Inr (set_turn ((ct_pos + 1) mod length q) True (set_turn ct_pos False q)))"

text \<open>
  Line 204, \<^verbatim>\<open>q_array[ct_pos], q_array[user_pos] = q_array[user_pos], q_array[ct_pos]\<close>:
  both right-hand sides are read before either slot is written.
\<close>

definition swap_positions :: "nat \<Rightarrow> nat \<Rightarrow> queue \<Rightarrow> queue" where
  "swap_positions ct_pos user_pos q = q[ct_pos := q ! user_pos, user_pos := q ! ct_pos]"

text \<open>
  The turn advancement on its own: the holder is looked up and the two
  assignments are applied. Unpacking a missing holder raises TypeError.
\<close>

definition advance :: "queue \<Rightarrow> py_error + queue" where
  "advance q =
     (case get_current_turn q of
        None \<Rightarrow> Inl TypeError
      | Some (_, _, ct_pos) \<Rightarrow> reassign_current_turn ct_pos q)"

fun advance_n :: "nat \<Rightarrow> queue \<Rightarrow> py_error + queue" where
  "advance_n 0 q = Inr q"
| "advance_n (Suc k) q =
     (case advance q of Inl e \<Rightarrow> Inl e | Inr q' \<Rightarrow> advance_n k q')"

text \<open>
  The queue computation of \<^verbatim>\<open>swap_users\<close> (lines 175 to 204), without the
  messages: the two rejections, and otherwise the reassignment followed by
  the swap. The name of the former holder is kept for the confirmation.
\<close>

datatype swap_result =
  NotInGroup
| SelfSwap
| Swapped string queue

definition substitute :: "queue \<Rightarrow> int \<Rightarrow> py_error + swap_result" where
  "substitute q uid =
     (case get_current_turn q of
        None \<Rightarrow> Inl TypeError
      | Some (_, ct_name, ct_pos) \<Rightarrow>
          (case user_position q uid of
             None \<Rightarrow> Inr NotInGroup
           | Some user_pos \<Rightarrow>
               if ct_pos = user_pos then Inr SelfSwap
               else (case reassign_current_turn ct_pos q of
                       Inl e \<Rightarrow> Inl e
                     | Inr q' \<Rightarrow> Inr (Swapped ct_name (swap_positions ct_pos user_pos q')))))"

subsection \<open>Reordering\<close>

text \<open>
  Python's \<^verbatim>\<open>list.pop(i)\<close> and \<^verbatim>\<open>list.insert(i, x)\<close>: a negative index counts
  from the end; \<^verbatim>\<open>pop\<close> raises IndexError out of range, \<^verbatim>\<open>insert\<close> clamps.
\<close>

definition py_pop :: "'a list \<Rightarrow> int \<Rightarrow> py_error + ('a \<times> 'a list)" where
  "py_pop xs i =
     (let n = int (length xs); j = (if i < 0 then i + n else i)
      in if 0 \<le> j \<and> j < n
         then Inr (xs ! nat j, take (nat j) xs @ drop (Suc (nat j)) xs)
         else Inl IndexError)"

definition py_insert :: "'a list \<Rightarrow> int \<Rightarrow> 'a \<Rightarrow> 'a list" where
  "py_insert xs i x =
     (let n = int (length xs); j = (if i < 0 then max 0 (i + n) else min i n)
      in take (nat j) xs @ x # drop (nat j) xs)"

text \<open>
  The list computation of \<^verbatim>\<open>reorder_queue\<close> (lines 89 to 98): equal positions
  leave the list alone, otherwise the item is popped and inserted. The rest
  of the handler stores the resulting list as it is, in the data of the
  dialogue and in the collection of queues, and shows it.
\<close>

definition reorder :: "queue \<Rightarrow> int \<Rightarrow> int \<Rightarrow> py_error + queue" where
  "reorder q from_position to_position =
     (if from_position = to_position then Inr q
      else (case py_pop q from_position of
              Inl e \<Rightarrow> Inl e
            | Inr (item_to_move, rest) \<Rightarrow> Inr (py_insert rest to_position item_to_move)))"

subsection \<open>The turn invariant\<close>

definition one_turn :: "queue \<Rightarrow> bool" where
  "one_turn q \<longleftrightarrow> length (filter current_turn q) = 1"

definition holders :: "queue \<Rightarrow> nat set" where
  "holders q = {i. i < length q \<and> current_turn (q ! i)}"

subsection \<open>The queue of the end-to-end scenarios\<close>

text \<open>Ann, Bo and Cy in this order; Ann holds the turn.\<close>

definition ann :: member where
  "ann = \<lparr>user_id = 1, name = ''Ann'', current_turn = True\<rparr>"

definition bo :: member where
  "bo = \<lparr>user_id = 2, name = ''Bo'', current_turn = False\<rparr>"

definition cy :: member where
  "cy = \<lparr>user_id = 3, name = ''Cy'', current_turn = False\<rparr>"

definition scenario_queue :: queue where
  "scenario_queue = [ann, bo, cy]"

text \<open>
  The queue whose members are those of \<open>q\<close>, in the same order, with the flag set
  exactly at slot \<open>t\<close>.
\<close>

definition place :: "nat \<Rightarrow> queue \<Rightarrow> queue" where
  "place t q = map (\<lambda>(j, m). m\<lparr>current_turn := (j = t)\<rparr>) (enumerate 0 q)"


section \<open>The handlers on the state of the bot\<close>

subsection \<open>Messages, scheduler jobs and stored state\<close>

text \<open>
  The stickers of \<^verbatim>\<open>utils/sticker_file_ids.py\<close> that the handlers send, and
  the texts they send: one constructor for each message template, carrying the
  values interpolated into it.
\<close>

datatype sticker =
  CONFUSED_STICKER | NOPE_STICKER | SAD_STICKER | WHATEVER_STICKER | YAY_STICKER

datatype text_template =
  SkipNotice string string
    \<comment> \<open>queue name, user name: "... the chore in \<open>queue\<close> queue is incomplete ... It is
       still \<open>user\<close>'s turn to do the chore."\<close>
| AskReasonText
    \<comment> \<open>"Can you please type out the reason why you can't complete the chore today? ..."\<close>
| NoGroupChatText
    \<comment> \<open>"Looks like you don't have a group chat. ... Once I'm added to the group, send me
       the reason again."\<close>
| ThankYouText
    \<comment> \<open>"Thank you. Let's try and work this out in your group chat."\<close>
| CallForSubstitute string string string
    \<comment> \<open>user name, queue name, reason: "... can't do the chore ... Who can do it today
       instead? ..."\<close>
| NotInGroupText
    \<comment> \<open>"You are not a part of the roommates group, ..."\<close>
| SelfSwapText string
    \<comment> \<open>user name: "I'm sorry, but you can't swap with yourself, ..."\<close>
| SwappedText string string string
    \<comment> \<open>user name, name of the former holder, queue name: "Yaaay, thank you, ...! You have
       swapped places with ..."\<close>

datatype keyboard =
  AddToGroupKeyboard
    \<comment> \<open>the result of \<^verbatim>\<open>add_to_group_keyboard()\<close>\<close>
| SwapKeyboard string int
    \<comment> \<open>the button "I can do it." with \<^verbatim>\<open>callback_data\<close> \<^verbatim>\<open>swap_{queue_name}_{team_id}\<close>\<close>

text \<open>What a handler does to the outside, in the order in which it does it.\<close>

datatype effect =
  SendSticker int sticker
| SendMessage int text_template "keyboard option"
| DeleteMessage int int
| DeleteReplyMarkup int int
| AnswerCallback int
| LogInfo string

text \<open>
  A job of the scheduler. The id \<^verbatim>\<open>resolving_{queue_name}_{group_chat_id}\<close> is kept
  as the pair it is built from (the rendering of the chat id has no
  underscore, so the string determines the pair); the chat id is optional
  because \<^verbatim>\<open>swap_users\<close> builds the id from whatever \<^verbatim>\<open>get_team_chat\<close> returned.
  Times are microseconds, the resolution of \<^verbatim>\<open>datetime\<close>.
\<close>

record job =
  job_id :: "string \<times> int option"
  run_date :: int
  args :: "int \<times> string \<times> string"

datatype fsm_state = TrackingQueue_waiting_for_reason

record fsm_entry =
  current_state :: "fsm_state option"
  data_queue_name :: "string option"

text \<open>
  The collections \<^verbatim>\<open>users\<close> (user id to team id) and \<^verbatim>\<open>queues\<close> (team id to the
  dictionary of queues), the group chat of each team, the job store, the
  storage of the finite-state machine (keyed by chat and user) and the
  effects performed so far.
\<close>

record bot =
  users :: "int \<rightharpoonup> int"
  team_chat :: "int \<rightharpoonup> int"
  queues :: "int \<rightharpoonup> (string \<rightharpoonup> queue)"
  sched :: "job list"
  fsm :: "int \<times> int \<Rightarrow> fsm_entry"
  trace :: "effect list"

record message =
  msg_text :: string
  msg_from_id :: int
  msg_full_name :: string
  msg_chat :: int

text \<open>
  A callback query. \<^verbatim>\<open>cq_queue_name\<close> and \<^verbatim>\<open>cq_team_id\<close> are what the handler
  reads from \<^verbatim>\<open>call.data\<close> (\<^verbatim>\<open>data[1]\<close> and \<^verbatim>\<open>int(data[-1])\<close> in \<^verbatim>\<open>swap_users\<close>,
  \<^verbatim>\<open>data[-1]\<close> in \<^verbatim>\<open>ask_for_reason\<close>); for a queue name without an underscore
  they are the queue name and the team id that the button was made with.
  \<^verbatim>\<open>cq_chat\<close> and \<^verbatim>\<open>cq_message_id\<close> identify \<^verbatim>\<open>call.message\<close>, which the handlers
  answer, delete or strip of its keyboard.
\<close>

record callback_query =
  cq_from_id :: int
  cq_first_name :: string
  cq_chat :: int
  cq_message_id :: int
  cq_queue_name :: string
  cq_team_id :: int

subsection \<open>Queries\<close>

text \<open>\<^verbatim>\<open>get_team_id\<close>: subscripting the missing document raises TypeError.\<close>

definition get_team_id :: "bot \<Rightarrow> int \<Rightarrow> py_error + int" where
  "get_team_id s uid = (case users s uid of None \<Rightarrow> Inl TypeError | Some t \<Rightarrow> Inr t)"

text \<open>
  Modelled from the spec: \<^verbatim>\<open>get_team_chat\<close> is imported from
  \<^verbatim>\<open>utils/get_db_data.py\<close> but its body is not part of the sources at hand. The
  spec gives every team a notification channel, which may be missing; the
  callers test the result for truth and \<^verbatim>\<open>swap_users\<close> expects to go on for a
  user who is not in the database, so the function returns the group chat of
  the user's team, and nothing when the user or the chat is missing.
\<close>

definition get_team_chat :: "bot \<Rightarrow> int \<Rightarrow> int option" where
  "get_team_chat s uid = (case users s uid of None \<Rightarrow> None | Some t \<Rightarrow> team_chat s t)"

text \<open>Python's truth test on the result: \<^verbatim>\<open>None\<close> and \<^verbatim>\<open>0\<close> are false.\<close>

definition truthy :: "int option \<Rightarrow> bool" where
  "truthy g = (case g of None \<Rightarrow> False | Some c \<Rightarrow> c \<noteq> 0)"

definition get_queue_array :: "bot \<Rightarrow> int \<Rightarrow> string \<Rightarrow> py_error + queue" where
  "get_queue_array s team_id queue_type =
     (case queues s team_id of
        None \<Rightarrow> Inl TypeError
      | Some qs \<Rightarrow> (case qs queue_type of None \<Rightarrow> Inl KeyError | Some q \<Rightarrow> Inr q))"

text \<open>
  \<^verbatim>\<open>queues.update_one({"id": team_id}, {"$set": {f"queues.{queue_name}": q_array}}, upsert=True)\<close>
\<close>

definition update_queue :: "int \<Rightarrow> string \<Rightarrow> queue \<Rightarrow> bot \<Rightarrow> bot" where
  "update_queue team_id queue_name q_array s =
     s\<lparr>queues := (queues s)(team_id \<mapsto>
          (case queues s team_id of None \<Rightarrow> Map.empty | Some qs \<Rightarrow> qs)(queue_name \<mapsto> q_array))\<rparr>"

definition emit :: "effect list \<Rightarrow> bot \<Rightarrow> bot" where
  "emit es s = s\<lparr>trace := trace s @ es\<rparr>"

subsection \<open>The scheduler\<close>

text \<open>
  The contract of the scheduler library as the handlers use it:
  \<^verbatim>\<open>add_job(..., replace_existing=True)\<close> replaces the job that has the same id
  and adds the job otherwise; \<^verbatim>\<open>remove_job\<close> raises \<^verbatim>\<open>JobLookupError\<close> when no job
  has the id; a job with a date trigger is run once, when its run date has
  come (however late, as \<^verbatim>\<open>misfire_grace_time\<close> is \<^verbatim>\<open>None\<close>), and is removed from
  the store.
\<close>

definition has_job :: "string \<times> int option \<Rightarrow> job list \<Rightarrow> bool" where
  "has_job jid js \<longleftrightarrow> jid \<in> set (map job_id js)"

definition add_job :: "job \<Rightarrow> job list \<Rightarrow> job list" where
  "add_job j js =
     (if has_job (job_id j) js
      then map (\<lambda>k. if job_id k = job_id j then j else k) js
      else js @ [j])"

datatype job_lookup_error = JobLookupError

definition remove_job :: "string \<times> int option \<Rightarrow> job list \<Rightarrow> job_lookup_error + job list" where
  "remove_job jid js =
     (if has_job jid js then Inr (filter (\<lambda>k. job_id k \<noteq> jid) js) else Inl JobLookupError)"

subsection \<open>The handlers of resolve\_conflict.py\<close>

definition HOURS :: int where
  "HOURS = 2"

text \<open>\<^verbatim>\<open>get_later_time\<close>: the clock reading plus \<^verbatim>\<open>timedelta(hours=HOURS)\<close>.\<close>

definition get_later_time :: "int \<Rightarrow> int" where
  "get_later_time now = now + HOURS * 3600000000"

definition skip_chore_today :: "int \<Rightarrow> string \<Rightarrow> string \<Rightarrow> bot \<Rightarrow> bot" where
  "skip_chore_today group_chat_id user_name queue_name s =
     emit [SendSticker group_chat_id WHATEVER_STICKER,
           SendMessage group_chat_id (SkipNotice queue_name user_name) None] s"

text \<open>
  The scheduler running the job with the given id at the given time: nothing
  happens when there is no such job or its run date has not come.
\<close>

definition run_job :: "string \<times> int option \<Rightarrow> int \<Rightarrow> bot \<Rightarrow> bot" where
  "run_job jid now s =
     (case find (\<lambda>k. job_id k = jid) (sched s) of
        None \<Rightarrow> s
      | Some j \<Rightarrow>
          if run_date j \<le> now
          then (case args j of (group_chat_id, user_name, queue_name) \<Rightarrow>
                  skip_chore_today group_chat_id user_name queue_name
                    (s\<lparr>sched := filter (\<lambda>k. job_id k \<noteq> jid) (sched s)\<rparr>))
          else s)"

definition ask_for_reason :: "callback_query \<Rightarrow> bot \<Rightarrow> bot" where
  "ask_for_reason call s =
     (let key = (cq_chat call, cq_from_id call);
          s1 = emit [DeleteMessage (cq_chat call) (cq_message_id call)] s;
          s2 = s1\<lparr>fsm := (fsm s1)(key := (fsm s1 key)
                  \<lparr>current_state := Some TrackingQueue_waiting_for_reason\<rparr>)\<rparr>;
          s3 = s2\<lparr>fsm := (fsm s2)(key := (fsm s2 key)
                  \<lparr>data_queue_name := Some (cq_queue_name call)\<rparr>)\<rparr>
      in emit [SendSticker (cq_chat call) SAD_STICKER,
               SendMessage (cq_chat call) AskReasonText None,
               AnswerCallback (cq_from_id call)] s3)"

text \<open>
  \<^verbatim>\<open>inform_and_resolve\<close>, registered for the state \<^verbatim>\<open>waiting_for_reason\<close>. The
  clock reading is a parameter. \<^verbatim>\<open>state.finish()\<close> resets the state and the data
  of the chat and user. Past the truth test the chat id is present, so the
  branch for a missing one below it is never taken.
\<close>

definition inform_and_resolve :: "int \<Rightarrow> message \<Rightarrow> bot \<Rightarrow> py_error + bot" where
  "inform_and_resolve now message s =
     (let reason = msg_text message;
          user_name = msg_full_name message;
          group_chat_id = get_team_chat s (msg_from_id message)
      in case get_team_id s (msg_from_id message) of
           Inl e \<Rightarrow> Inl e
         | Inr team_id \<Rightarrow>
             if \<not> truthy group_chat_id
             then Inr (emit [SendMessage (msg_chat message) NoGroupChatText
                               (Some AddToGroupKeyboard)] s)
             else (case group_chat_id of
                     None \<Rightarrow> Inl TypeError
                   | Some chat \<Rightarrow>
                 (case data_queue_name (fsm s (msg_chat message, msg_from_id message)) of
                     None \<Rightarrow> Inl KeyError
                   | Some queue_name \<Rightarrow>
                       let later_time = get_later_time now;
                           s1 = s\<lparr>sched := add_job
                                  \<lparr>job_id = (queue_name, group_chat_id),
                                   run_date = later_time,
                                   args = (chat, user_name, queue_name)\<rparr> (sched s)\<rparr>;
                           s2 = emit [SendMessage (msg_chat message) ThankYouText None,
                                      SendMessage chat
                                        (CallForSubstitute user_name queue_name reason)
                                        (Some (SwapKeyboard queue_name team_id))] s1
                       in Inr (s2\<lparr>fsm := (fsm s2)((msg_chat message, msg_from_id message) :=
                                  \<lparr>current_state = None, data_queue_name = None\<rparr>)\<rparr>))))"

text \<open>
  Lines 211 to 217 of \<^verbatim>\<open>swap_users\<close>:
  \<^verbatim>\<open>
  try:
      sched.remove_job(job_id=f"resolving_{queue_name}_{group_chat_id}", jobstore="mongo")
  except JobLookupError:
      logging.info("Someone pressed I can do it after the time limit.")
  \<close>
\<close>

definition cancel_job :: "string \<times> int option \<Rightarrow> bot \<Rightarrow> bot" where
  "cancel_job jid s =
     (case remove_job jid (sched s) of
        Inr js \<Rightarrow> s\<lparr>sched := js\<rparr>
      | Inl JobLookupError \<Rightarrow>
          emit [LogInfo ''Someone pressed I can do it after the time limit.''] s)"

text \<open>
  \<^verbatim>\<open>swap_users\<close>. The queue computation is \<open>substitute\<close>; the queue is written
  back before the job is removed.
\<close>

definition swap_users :: "callback_query \<Rightarrow> bot \<Rightarrow> py_error + bot" where
  "swap_users call s =
     (let queue_name = cq_queue_name call;
          team_id = cq_team_id call;
          user_name = cq_first_name call;
          group_chat_id = get_team_chat s (cq_from_id call)
      in case get_queue_array s team_id queue_name of
           Inl e \<Rightarrow> Inl e
         | Inr q_array \<Rightarrow>
             (case substitute q_array (cq_from_id call) of
                Inl e \<Rightarrow> Inl e
              | Inr NotInGroup \<Rightarrow>
                  Inr (emit [SendSticker (cq_chat call) NOPE_STICKER,
                             SendMessage (cq_chat call) NotInGroupText None,
                             AnswerCallback (cq_from_id call)] s)
              | Inr SelfSwap \<Rightarrow>
                  Inr (emit [SendSticker (cq_chat call) CONFUSED_STICKER,
                             SendMessage (cq_chat call) (SelfSwapText user_name) None,
                             AnswerCallback (cq_from_id call)] s)
              | Inr (Swapped ct_name q_array') \<Rightarrow>
                  let s1 = update_queue team_id queue_name q_array' s;
                      s2 = emit [LogInfo ''Swapped two users successfully''] s1;
                      s3 = cancel_job (queue_name, group_chat_id) s2
                  in Inr (emit [DeleteReplyMarkup (cq_chat call) (cq_message_id call),
                                SendSticker (cq_chat call) YAY_STICKER,
                                SendMessage (cq_chat call)
                                  (SwappedText user_name ct_name queue_name) None,
                                AnswerCallback (cq_from_id call)] s3)))"

subsection \<open>The states of the end-to-end scenarios\<close>

text \<open>
  One team, set up by Ann (so its id is hers), with the group chat \<open>-100\<close> and
  the queue \<open>dishes\<close>. Ann declares that she cannot do the chore and gives the
  reason; Bo presses the button in the group chat.
\<close>

definition scenario_bot :: bot where
  "scenario_bot =
     \<lparr>users = [1 \<mapsto> 1, 2 \<mapsto> 1, 3 \<mapsto> 1],
      team_chat = [1 \<mapsto> - 100],
      queues = [1 \<mapsto> [''dishes'' \<mapsto> scenario_queue]],
      sched = [],
      fsm = (\<lambda>_. \<lparr>current_state = None, data_queue_name = None\<rparr>),
      trace = []\<rparr>"

definition ann_call :: callback_query where
  "ann_call =
     \<lparr>cq_from_id = 1, cq_first_name = ''Ann'', cq_chat = 1, cq_message_id = 10,
      cq_queue_name = ''dishes'', cq_team_id = 1\<rparr>"

definition ann_reason :: message where
  "ann_reason = \<lparr>msg_text = ''sick'', msg_from_id = 1, msg_full_name = ''Ann'', msg_chat = 1\<rparr>"

definition bo_call :: callback_query where
  "bo_call =
     \<lparr>cq_from_id = 2, cq_first_name = ''Bo'', cq_chat = - 100, cq_message_id = 11,
      cq_queue_name = ''dishes'', cq_team_id = 1\<rparr>"

text \<open>The state after the escalation at time 0, and after the job has then run.\<close>

definition escalated_bot :: bot where
  "escalated_bot =
     (case inform_and_resolve 0 ann_reason (ask_for_reason ann_call scenario_bot) of
        Inr s \<Rightarrow> s
      | Inl e \<Rightarrow> scenario_bot)"

definition timed_out_bot :: bot where
  "timed_out_bot = run_job (''dishes'', Some (- 100)) (get_later_time 0) escalated_bot"

text \<open>The same team without a group chat.\<close>

definition no_chat_bot :: bot where
  "no_chat_bot = (ask_for_reason ann_call scenario_bot)\<lparr>team_chat := Map.empty\<rparr>"

text \<open>
  Dee has joined Ann's team through the invite link after the queue was made:
  \<^verbatim>\<open>greet\<close> in \<^verbatim>\<open>basic_commands.py\<close> enters her in the collections of users and
  teams and leaves the queues alone. She presses the button in the group chat.
\<close>

definition joined_bot :: bot where
  "joined_bot = scenario_bot\<lparr>users := (users scenario_bot)(4 \<mapsto> 1)\<rparr>"

definition dee_call :: callback_query where
  "dee_call =
     \<lparr>cq_from_id = 4, cq_first_name = ''Dee'', cq_chat = - 100, cq_message_id = 11,
      cq_queue_name = ''dishes'', cq_team_id = 1\<rparr>"

text \<open>The job that \<^verbatim>\<open>inform_and_resolve\<close> hands to \<^verbatim>\<open>sched.add_job\<close>.\<close>

definition armed_job :: "int \<Rightarrow> message \<Rightarrow> int \<Rightarrow> string \<Rightarrow> job" where
  "armed_job now m g qn =
     \<lparr>job_id = (qn, Some g), run_date = get_later_time now, args = (g, msg_full_name m, qn)\<rparr>"


text \<open>
  Reading the outcome of a handler: the stored queue and the effects after it
  has run (the exception, and no effects, when it raised).
\<close>

definition queue_after :: "py_error + bot \<Rightarrow> int \<Rightarrow> string \<Rightarrow> py_error + queue" where
  "queue_after r team_id queue_name =
     (case r of Inl e \<Rightarrow> Inl e | Inr s \<Rightarrow> get_queue_array s team_id queue_name)"

definition trace_after :: "py_error + bot \<Rightarrow> effect list" where
  "trace_after r = (case r of Inl e \<Rightarrow> [] | Inr s \<Rightarrow> trace s)"

section \<open>Properties of the queue operations\<close>

subsection \<open>Finding the holder\<close>

lemma find_turn_None: "find_turn k q = None \<longleftrightarrow> (\<forall>m \<in> set q. \<not> current_turn m)"
  by (induction q arbitrary: k) auto

lemma find_turn_Some:
  "find_turn k q = Some (u, n, p) \<Longrightarrow>
     k \<le> p \<and> p - k < length q \<and> current_turn (q ! (p - k)) \<and>
     u = user_id (q ! (p - k)) \<and> n = name (q ! (p - k)) \<and>
     (\<forall>j < p - k. \<not> current_turn (q ! j))"
proof (induction q arbitrary: k)
  case Nil
  then show ?case by simp
next
  case (Cons m ms)
  show ?case
  proof (cases "current_turn m")
    case True
    with Cons.prems show ?thesis by simp
  next
    case False
    with Cons.prems have f: "find_turn (Suc k) ms = Some (u, n, p)" by simp
    from Cons.IH [OF f] have ih: "Suc k \<le> p" "p - Suc k < length ms"
      "current_turn (ms ! (p - Suc k))" "u = user_id (ms ! (p - Suc k))"
      "n = name (ms ! (p - Suc k))" "\<forall>j < p - Suc k. \<not> current_turn (ms ! j)"
      by simp_all
    from ih(1) have e: "p - k = Suc (p - Suc k)" by simp
    have "\<forall>j < p - k. \<not> current_turn ((m # ms) ! j)"
    proof (intro allI impI)
      fix j assume "j < p - k"
      then show "\<not> current_turn ((m # ms) ! j)"
        using False ih(6) e by (cases j) auto
    qed
    with ih e show ?thesis by simp
  qed
qed

lemma one_turn_holders: "one_turn q \<longleftrightarrow> (\<exists>i. holders q = {i})"
  by (simp add: one_turn_def holders_def length_filter_conv_card card_1_singleton_iff)

lemma holders_get_current_turn:
  assumes "holders q = {i}"
  shows "get_current_turn q = Some (user_id (q ! i), name (q ! i), i)"
proof -
  from assms have "i \<in> holders q" by simp
  then have i: "i < length q" "current_turn (q ! i)" by (simp_all add: holders_def)
  have uniq: "j = i" if "j < length q" "current_turn (q ! j)" for j
  proof -
    from that have "j \<in> holders q" by (simp add: holders_def)
    with assms show ?thesis by simp
  qed
  from i have "\<not> (\<forall>m \<in> set q. \<not> current_turn m)" using nth_mem by blast
  then obtain u n p where f: "find_turn 0 q = Some (u, n, p)"
    using find_turn_None [of 0 q] by (cases "find_turn 0 q") auto
  from find_turn_Some [OF f] have "p < length q" "current_turn (q ! p)"
    "u = user_id (q ! p)" "n = name (q ! p)" by simp_all
  with uniq f show ?thesis by (auto simp: get_current_turn_def)
qed

lemma length_place [simp]: "length (place t q) = length q"
  by (simp add: place_def)

lemma nth_place [simp]: "j < length q \<Longrightarrow> place t q ! j = (q ! j)\<lparr>current_turn := (j = t)\<rparr>"
  by (simp add: place_def nth_enumerate_eq)

lemma holders_place: "t < length q \<Longrightarrow> holders (place t q) = {t}"
proof (rule set_eqI)
  fix j
  assume t: "t < length q"
  show "j \<in> holders (place t q) \<longleftrightarrow> j \<in> {t}"
  proof (cases "j < length q")
    case True
    then show ?thesis by (simp add: holders_def)
  next
    case False
    with t have "j \<noteq> t" by auto
    with False show ?thesis by (simp add: holders_def)
  qed
qed

lemma holders_singletonD:
  assumes "holders q = {i}"
  shows "i < length q" and "current_turn (q ! i)"
    and "\<And>j. j < length q \<Longrightarrow> current_turn (q ! j) \<longleftrightarrow> j = i"
proof -
  from assms have "i \<in> holders q" by simp
  then show "i < length q" and c: "current_turn (q ! i)" by (simp_all add: holders_def)
  fix j assume j: "j < length q"
  show "current_turn (q ! j) \<longleftrightarrow> j = i"
  proof
    assume "current_turn (q ! j)"
    with j have "j \<in> holders q" by (simp add: holders_def)
    with assms show "j = i" by simp
  next
    assume "j = i" with c show "current_turn (q ! j)" by simp
  qed
qed

lemma place_id:
  assumes "holders q = {i}"
  shows "place i q = q"
proof (rule nth_equalityI)
  show "length (place i q) = length q" by simp
next
  fix j assume "j < length (place i q)"
  then have j: "j < length q" by simp
  from holders_singletonD(3) [OF assms j] show "place i q ! j = q ! j"
    using j by simp
qed

lemma length_set_turn [simp]: "length (set_turn i b q) = length q"
  by (simp add: set_turn_def)

lemma nth_set_turn:
  "j < length q \<Longrightarrow> set_turn i b q ! j = (if j = i then (q ! j)\<lparr>current_turn := b\<rparr> else q ! j)"
  by (simp add: set_turn_def)

lemma reassign_place:
  assumes "t < length q"
  shows "reassign_current_turn t (place t q) = Inr (place ((t + 1) mod length q) q)"
proof -
  have "set_turn ((t + 1) mod length q) True (set_turn t False (place t q)) =
        place ((t + 1) mod length q) q" (is "?l = ?r")
  proof (rule nth_equalityI)
    show "length ?l = length ?r" by simp
  next
    fix j assume "j < length ?l"
    then have j: "j < length q" by simp
    then show "?l ! j = ?r ! j" by (simp add: nth_set_turn)
  qed
  with assms show ?thesis by (simp add: reassign_current_turn_def)
qed

lemma advance_place:
  assumes "t < length q"
  shows "advance (place t q) = Inr (place ((t + 1) mod length q) q)"
proof -
  have "get_current_turn (place t q) =
        Some (user_id (place t q ! t), name (place t q ! t), t)"
    by (rule holders_get_current_turn) (rule holders_place [OF assms])
  then show ?thesis using reassign_place [OF assms] by (simp add: advance_def)
qed

lemma advance_n_place:
  "t < length q \<Longrightarrow> advance_n k (place t q) = Inr (place ((t + k) mod length q) q)"
proof (induction k arbitrary: t)
  case 0
  then show ?case by simp
next
  case (Suc k)
  from Suc.prems have "0 < length q" by (cases q) simp_all
  then have lt: "(t + 1) mod length q < length q" by simp
  have "advance_n (Suc k) (place t q) = advance_n k (place ((t + 1) mod length q) q)"
    using advance_place [OF Suc.prems] by simp
  also have "\<dots> = Inr (place (((t + 1) mod length q + k) mod length q) q)"
    by (rule Suc.IH [OF lt])
  also have "((t + 1) mod length q + k) mod length q = (t + Suc k) mod length q"
    by (simp add: mod_add_left_eq)
  finally show ?case .
qed


subsection \<open>Permutations keep the invariant\<close>

lemma succ_mod_less: "i < (n::nat) \<Longrightarrow> (i + 1) mod n < n"
  by (cases n) simp_all

lemma one_turn_mset: "one_turn q \<longleftrightarrow> size (filter_mset current_turn (mset q)) = 1"
  by (simp add: one_turn_def flip: mset_filter)

lemma one_turn_cong_mset: "mset q' = mset q \<Longrightarrow> one_turn q' = one_turn q"
  by (simp add: one_turn_mset)

lemma mset_swap_positions:
  "i < length q \<Longrightarrow> j < length q \<Longrightarrow> mset (swap_positions i j q) = mset q"
  unfolding swap_positions_def by (rule mset_swap)

lemma length_swap_positions [simp]: "length (swap_positions i j q) = length q"
  by (simp add: swap_positions_def)

lemma reassign_holders:
  assumes "holders q = {i}"
  shows "reassign_current_turn i q = Inr (place ((i + 1) mod length q) q)"
  using reassign_place [of i q] holders_singletonD(1) [OF assms] place_id [OF assms]
  by simp

lemma advance_holders:
  assumes "holders q = {i}"
  shows "advance q = Inr (place ((i + 1) mod length q) q)"
  using advance_place [of i q] holders_singletonD(1) [OF assms] place_id [OF assms]
  by simp

lemma one_turn_place: "t < length q \<Longrightarrow> one_turn (place t q)"
  using holders_place [of t q] by (auto simp: one_turn_holders)

lemma find_user_bound:
  "find_user uid k q acc = Some p \<Longrightarrow> acc = Some p \<or> (k \<le> p \<and> p - k < length q \<and> user_id (q ! (p - k)) = uid)"
proof (induction q arbitrary: k acc)
  case Nil
  then show ?case by simp
next
  case (Cons m ms)
  from Cons.prems have "find_user uid (Suc k) ms (if user_id m = uid then Some k else acc) = Some p"
    by simp
  from Cons.IH [OF this]
  consider "(if user_id m = uid then Some k else acc) = Some p"
    | "Suc k \<le> p" "p - Suc k < length ms" "user_id (ms ! (p - Suc k)) = uid"
    by blast
  then show ?case
  proof cases
    case 1
    then show ?thesis by (auto split: if_splits)
  next
    case 2
    from 2(1) have "p - k = Suc (p - Suc k)" by simp
    with 2 show ?thesis by simp
  qed
qed

lemma find_user_None:
  "find_user uid k q acc = None \<longleftrightarrow> acc = None \<and> uid \<notin> user_id ` set q"
  by (induction q arbitrary: k acc) auto

lemma user_position_Some:
  "user_position q uid = Some p \<Longrightarrow> p < length q \<and> user_id (q ! p) = uid"
  using find_user_bound [of uid 0 q None p] by (simp add: user_position_def)

lemma user_position_None: "user_position q uid = None \<longleftrightarrow> uid \<notin> user_id ` set q"
  by (simp add: user_position_def find_user_None)

lemma substitute_holders:
  assumes h: "holders q = {i}"
  shows "substitute q uid =
     (case user_position q uid of
        None \<Rightarrow> Inr NotInGroup
      | Some p \<Rightarrow> if i = p then Inr SelfSwap
                  else Inr (Swapped (name (q ! i))
                         (swap_positions i p (place ((i + 1) mod length q) q))))"
  by (simp add: substitute_def holders_get_current_turn [OF h] reassign_holders [OF h]
      split: option.splits)

lemma substitute_one_turn:
  assumes "one_turn q" and "substitute q uid = Inr (Swapped n q')"
  shows "one_turn q'"
proof -
  from assms(1) obtain i where h: "holders q = {i}" by (auto simp: one_turn_holders)
  have i: "i < length q" by (rule holders_singletonD(1) [OF h])
  from assms(2) obtain p where p: "user_position q uid = Some p" "i \<noteq> p"
    and q': "q' = swap_positions i p (place ((i + 1) mod length q) q)"
    by (auto simp: substitute_holders [OF h] split: option.splits if_splits)
  from user_position_Some [OF p(1)] have pl: "p < length q" by simp
  have "(i + 1) mod length q < length q" using i by (rule succ_mod_less)
  then have a: "one_turn (place ((i + 1) mod length q) q)" by (rule one_turn_place)
  have m: "mset q' = mset (place ((i + 1) mod length q) q)"
    unfolding q' using i pl by (intro mset_swap_positions) simp_all
  from one_turn_cong_mset [OF m] a show ?thesis by simp
qed

lemma substitute_total:
  assumes "one_turn q"
  shows "\<exists>r. substitute q uid = Inr r"
proof -
  from assms obtain i where h: "holders q = {i}" by (auto simp: one_turn_holders)
  show ?thesis by (simp add: substitute_holders [OF h] split: option.splits)
qed

lemma mset_take_drop: "mset (take k xs) + mset (drop k xs) = mset xs"
  by (metis append_take_drop_id mset_append)

lemma mset_remove_nth:
  assumes "j < length xs"
  shows "add_mset (xs ! j) (mset (take j xs @ drop (Suc j) xs)) = mset xs"
proof -
  have "mset xs = mset (take j xs @ xs ! j # drop (Suc j) xs)"
    by (rule arg_cong [OF id_take_nth_drop [OF assms]])
  then show ?thesis by simp
qed

lemma py_pop_Inr:
  assumes "py_pop xs i = Inr (x, rest)"
  obtains j where "j < length xs" and "x = xs ! j" and "rest = take j xs @ drop (Suc j) xs"
    and "int j = (if i < 0 then i + int (length xs) else i)"
proof -
  define j where "j = nat (if i < 0 then i + int (length xs) else i)"
  from assms have "j < length xs" "x = xs ! j" "rest = take j xs @ drop (Suc j) xs"
    "int j = (if i < 0 then i + int (length xs) else i)"
    by (auto simp: py_pop_def Let_def j_def split: if_splits)
  then show thesis by (rule that)
qed

lemma py_pop_mset:
  assumes "py_pop xs i = Inr (x, rest)"
  shows "mset xs = add_mset x (mset rest)"
proof -
  from assms obtain j where "j < length xs" "x = xs ! j" "rest = take j xs @ drop (Suc j) xs"
    by (rule py_pop_Inr)
  then show ?thesis using mset_remove_nth [of j xs] by simp
qed

lemma py_insert_mset: "mset (py_insert xs i x) = add_mset x (mset xs)"
  by (simp add: py_insert_def Let_def mset_take_drop)

lemma reorder_mset:
  assumes "reorder q f t = Inr q'"
  shows "mset q' = mset q"
proof (cases "f = t")
  case True
  with assms show ?thesis by (simp add: reorder_def)
next
  case False
  with assms obtain x rest where p: "py_pop q f = Inr (x, rest)"
    and q': "q' = py_insert rest t x"
    by (auto simp: reorder_def split: sum.splits)
  from py_pop_mset [OF p] show ?thesis by (simp add: q' py_insert_mset)
qed

subsection \<open>Totality of the operations and the scenario queue\<close>

lemma advance_one_turn:
  assumes "one_turn q"
  shows "\<exists>q'. advance q = Inr q' \<and> one_turn q'"
proof -
  from assms obtain i where h: "holders q = {i}" by (auto simp: one_turn_holders)
  have "i < length q" by (rule holders_singletonD(1) [OF h])
  then have "(i + 1) mod length q < length q" by (rule succ_mod_less)
  then have "one_turn (place ((i + 1) mod length q) q)" by (rule one_turn_place)
  with advance_holders [OF h] show ?thesis by simp
qed

lemma py_pop_total:
  assumes "- int (length xs) \<le> i" and "i < int (length xs)"
  shows "\<exists>x rest. py_pop xs i = Inr (x, rest)"
  using assms by (simp add: py_pop_def Let_def)

lemma py_pop_error:
  assumes "\<not> (- int (length xs) \<le> i \<and> i < int (length xs))"
  shows "py_pop xs i = Inl IndexError"
  using assms by (auto simp: py_pop_def Let_def)

lemma reorder_cases:
  "(\<exists>q'. reorder q f t = Inr q' \<and> mset q' = mset q) \<or>
   (reorder q f t = Inl IndexError \<and> f \<noteq> t \<and>
      \<not> (- int (length q) \<le> f \<and> f < int (length q)))"
proof (cases "f = t \<or> (- int (length q) \<le> f \<and> f < int (length q))")
  case True
  then have "\<exists>q'. reorder q f t = Inr q'"
  proof
    assume "f = t" then show ?thesis by (simp add: reorder_def)
  next
    assume "- int (length q) \<le> f \<and> f < int (length q)"
    then obtain x rest where "py_pop q f = Inr (x, rest)"
      using py_pop_total [of q f] by blast
    then show ?thesis by (simp add: reorder_def)
  qed
  then obtain q' where q': "reorder q f t = Inr q'" ..
  from reorder_mset [OF q'] q' show ?thesis by simp
next
  case False
  then have "py_pop q f = Inl IndexError" by (intro py_pop_error) simp
  with False show ?thesis by (simp add: reorder_def)
qed


lemma scenario_simps:
  "get_current_turn scenario_queue = Some (1, ''Ann'', 0)"
  "user_position scenario_queue 2 = Some 1"
  "user_position scenario_queue 3 = Some 2"
  "user_position scenario_queue 1 = Some 0"
  "length scenario_queue = 3"
  by (simp_all add: scenario_queue_def ann_def bo_def cy_def get_current_turn_def
      user_position_def)

lemma substitute_scenario_bo:
  "substitute scenario_queue 2 =
     Inr (Swapped ''Ann'' [bo\<lparr>current_turn := True\<rparr>, ann\<lparr>current_turn := False\<rparr>, cy])"
  by (simp add: substitute_def scenario_simps reassign_current_turn_def set_turn_def
      swap_positions_def) (simp add: scenario_queue_def)

lemma substitute_scenario_cy:
  "substitute scenario_queue 3 =
     Inr (Swapped ''Ann'' [cy, bo\<lparr>current_turn := True\<rparr>, ann\<lparr>current_turn := False\<rparr>])"
  by (simp add: substitute_def scenario_simps reassign_current_turn_def set_turn_def
      swap_positions_def) (simp add: scenario_queue_def)

lemma reorder_scenario: "reorder scenario_queue 0 2 = Inr [bo, cy, ann]"
  by (simp add: reorder_def py_pop_def py_insert_def scenario_queue_def)


lemma reorder_in_range:
  assumes f: "0 \<le> f" "f < int (length q)" and t: "0 \<le> t" "t < int (length q)"
    and ne: "f \<noteq> t"
  shows "reorder q f t =
           Inr (take (nat t) (take (nat f) q @ drop (Suc (nat f)) q) @ q ! nat f #
                drop (nat t) (take (nat f) q @ drop (Suc (nat f)) q))"
proof -
  let ?rest = "take (nat f) q @ drop (Suc (nat f)) q"
  from f have pop: "py_pop q f = Inr (q ! nat f, ?rest)"
    by (simp add: py_pop_def Let_def)
  from f have "length ?rest = length q - 1" by auto
  with t have "min t (int (length ?rest)) = t" by auto
  with t have "py_insert ?rest t (q ! nat f) =
      take (nat t) ?rest @ q ! nat f # drop (nat t) ?rest"
    by (simp only: py_insert_def Let_def) simp
  with pop ne show ?thesis by (simp add: reorder_def)
qed

lemma nth_insert_at:
  assumes "k \<le> length r"
  shows "(take k r @ x # drop k r) ! k = x"
    and "take k (take k r @ x # drop k r) @ drop (Suc k) (take k r @ x # drop k r) = r"
    and "length (take k r @ x # drop k r) = Suc (length r)"
proof -
  from assms have l: "length (take k r) = k" by simp
  show "(take k r @ x # drop k r) ! k = x"
    using nth_append_length [of "take k r" x "drop k r"] by (simp only: l)
  have "take k (take k r @ x # drop k r) = take k r" using l by simp
  moreover have "drop (Suc k) (take k r @ x # drop k r) = drop k r" using l by simp
  ultimately show "take k (take k r @ x # drop k r) @ drop (Suc k) (take k r @ x # drop k r) = r"
    by simp
  show "length (take k r @ x # drop k r) = Suc (length r)" by simp
qed


text \<open>
  Where the flag is after an accepted substitution: the flag is written into
  the member at the slot after the holder's and the two members are swapped
  afterwards, so the flag stays in that slot unless the substitute is that
  very member, in which case it moves with the substitute into the holder's
  old slot.
\<close>

lemma succ_mod_neq:
  assumes "i < n" and "p < n" and "p \<noteq> i"
  shows "(i + 1) mod n \<noteq> (i::nat)"
proof (cases "i + 1 < n")
  case True
  then show ?thesis by simp
next
  case False
  with assms(1) have e: "i + 1 = n" by simp
  with assms(2,3) have "0 < i" by (cases i) auto
  moreover from e have "(i + 1) mod n = 0" by simp
  ultimately show ?thesis by simp
qed

lemma current_turn_swapped:
  assumes i: "i < length q" and p: "p < length q" and ne: "p \<noteq> i" and j: "j < length q"
    and t: "t < length q" and ti: "t \<noteq> i"
  shows "current_turn (swap_positions i p (place t q) ! j) \<longleftrightarrow>
           (if p = t then j = i else j = t)"
proof -
  have "swap_positions i p (place t q) ! j =
        (if j = p then place t q ! i else if j = i then place t q ! p else place t q ! j)"
    using i p j by (simp add: swap_positions_def nth_list_update)
  then show ?thesis using i p j ne ti by auto
qed

lemma substitute_holder_slot:
  assumes h: "holders q = {i}" and p: "user_position q uid = Some p" and ne: "p \<noteq> i"
  shows "\<exists>q'. substitute q uid = Inr (Swapped (name (q ! i)) q') \<and>
              holders q' = {if p = (i + 1) mod length q then i else (i + 1) mod length q}"
proof -
  let ?t = "(i + 1) mod length q"
  let ?q' = "swap_positions i p (place ?t q)"
  have i: "i < length q" by (rule holders_singletonD(1) [OF h])
  from user_position_Some [OF p] have pl: "p < length q" by simp
  have t: "?t < length q" by (rule succ_mod_less [OF i])
  have ti: "?t \<noteq> i" by (rule succ_mod_neq [OF i pl ne])
  have sub: "substitute q uid = Inr (Swapped (name (q ! i)) ?q')"
    using p ne by (simp add: substitute_holders [OF h])
  have "holders ?q' = {if p = ?t then i else ?t}"
  proof (rule set_eqI)
    fix j
    show "j \<in> holders ?q' \<longleftrightarrow> j \<in> {if p = ?t then i else ?t}"
    proof (cases "j < length q")
      case True
      from current_turn_swapped [OF i pl ne True t ti] True show ?thesis
        by (simp add: holders_def)
    next
      case False
      with i t have "j \<noteq> i" "j \<noteq> ?t" by auto
      with False show ?thesis by (simp add: holders_def)
    qed
  qed
  with sub show ?thesis by blast
qed

section \<open>Properties of the handlers\<close>

subsection \<open>Frames of the state updates\<close>

lemma emit_simps [simp]:
  "users (emit es s) = users s"
  "team_chat (emit es s) = team_chat s"
  "queues (emit es s) = queues s"
  "sched (emit es s) = sched s"
  "fsm (emit es s) = fsm s"
  "trace (emit es s) = trace s @ es"
  by (simp_all add: emit_def)

lemma update_queue_simps [simp]:
  "users (update_queue t n q s) = users s"
  "team_chat (update_queue t n q s) = team_chat s"
  "sched (update_queue t n q s) = sched s"
  "fsm (update_queue t n q s) = fsm s"
  "trace (update_queue t n q s) = trace s"
  by (simp_all add: update_queue_def)

lemma get_queue_array_cong:
  "queues s' = queues s \<Longrightarrow> get_queue_array s' t n = get_queue_array s t n"
  by (simp add: get_queue_array_def)

lemma get_team_chat_cong:
  "users s' = users s \<Longrightarrow> team_chat s' = team_chat s \<Longrightarrow> get_team_chat s' u = get_team_chat s u"
  by (simp add: get_team_chat_def split: option.splits)

lemma get_queue_array_update_same:
  "get_queue_array (update_queue t n q s) t n = Inr q"
  by (simp add: get_queue_array_def update_queue_def)

lemma swap_users_not_in_group:
  assumes "get_queue_array s (cq_team_id call) (cq_queue_name call) = Inr q"
    and "substitute q (cq_from_id call) = Inr NotInGroup"
  shows "swap_users call s =
     Inr (emit [SendSticker (cq_chat call) NOPE_STICKER,
                SendMessage (cq_chat call) NotInGroupText None,
                AnswerCallback (cq_from_id call)] s)"
  using assms by (simp add: swap_users_def)

lemma swap_users_self:
  assumes "get_queue_array s (cq_team_id call) (cq_queue_name call) = Inr q"
    and "substitute q (cq_from_id call) = Inr SelfSwap"
  shows "swap_users call s =
     Inr (emit [SendSticker (cq_chat call) CONFUSED_STICKER,
                SendMessage (cq_chat call) (SelfSwapText (cq_first_name call)) None,
                AnswerCallback (cq_from_id call)] s)"
  using assms by (simp add: swap_users_def)

lemma swap_users_swapped:
  assumes "get_queue_array s (cq_team_id call) (cq_queue_name call) = Inr q"
    and "substitute q (cq_from_id call) = Inr (Swapped ct_name q')"
  shows "swap_users call s =
     Inr (emit [DeleteReplyMarkup (cq_chat call) (cq_message_id call),
                SendSticker (cq_chat call) YAY_STICKER,
                SendMessage (cq_chat call)
                  (SwappedText (cq_first_name call) ct_name (cq_queue_name call)) None,
                AnswerCallback (cq_from_id call)]
          (cancel_job (cq_queue_name call, get_team_chat s (cq_from_id call))
             (emit [LogInfo ''Swapped two users successfully'']
                (update_queue (cq_team_id call) (cq_queue_name call) q' s))))"
  using assms
  by (simp add: swap_users_def Let_def)

lemma cancel_job_simps [simp]:
  "users (cancel_job jid s) = users s"
  "team_chat (cancel_job jid s) = team_chat s"
  "queues (cancel_job jid s) = queues s"
  "fsm (cancel_job jid s) = fsm s"
  by (simp_all add: cancel_job_def split: sum.splits job_lookup_error.splits)

lemma has_job_filter: "\<not> has_job jid (filter (\<lambda>k. job_id k \<noteq> jid) js)"
  by (auto simp: has_job_def)

lemma cancel_job_sched:
  "sched (cancel_job jid s) = filter (\<lambda>k. job_id k \<noteq> jid) (sched s)"
proof (cases "has_job jid (sched s)")
  case True
  then show ?thesis by (simp add: cancel_job_def remove_job_def)
next
  case False
  then have "\<forall>k \<in> set (sched s). job_id k \<noteq> jid" by (auto simp: has_job_def)
  then have "filter (\<lambda>k. job_id k \<noteq> jid) (sched s) = sched s" by (simp add: filter_id_conv)
  with False show ?thesis by (simp add: cancel_job_def remove_job_def)
qed

lemma cancel_job_trace:
  "trace (cancel_job jid s) =
     trace s @ (if has_job jid (sched s) then []
                else [LogInfo ''Someone pressed I can do it after the time limit.''])"
  by (simp add: cancel_job_def remove_job_def)

subsection \<open>The two outcomes of the escalation, and the scenario states\<close>

lemma inform_and_resolve_escalates:
  assumes "users s (msg_from_id m) = Some team" and "team_chat s team = Some g" and "g \<noteq> 0"
    and "data_queue_name (fsm s (msg_chat m, msg_from_id m)) = Some qn"
  shows "inform_and_resolve now m s =
     Inr ((emit [SendMessage (msg_chat m) ThankYouText None,
                 SendMessage g (CallForSubstitute (msg_full_name m) qn (msg_text m))
                   (Some (SwapKeyboard qn team))]
            (s\<lparr>sched := add_job (armed_job now m g qn) (sched s)\<rparr>))
          \<lparr>fsm := (fsm s)((msg_chat m, msg_from_id m) :=
                    \<lparr>current_state = None, data_queue_name = None\<rparr>)\<rparr>)"
  using assms
  by (simp add: inform_and_resolve_def Let_def get_team_chat_def get_team_id_def truthy_def
      armed_job_def emit_def)

lemma inform_and_resolve_no_chat:
  assumes "users s (msg_from_id m) = Some team" and "\<not> truthy (get_team_chat s (msg_from_id m))"
  shows "inform_and_resolve now m s =
     Inr (emit [SendMessage (msg_chat m) NoGroupChatText (Some AddToGroupKeyboard)] s)"
  using assms by (simp add: inform_and_resolve_def Let_def get_team_id_def)

lemma scenario_bot_fields:
  "users scenario_bot 1 = Some 1"
  "users scenario_bot 2 = Some 1"
  "team_chat scenario_bot 1 = Some (- 100)"
  "queues scenario_bot 1 = Some [''dishes'' \<mapsto> scenario_queue]"
  "sched scenario_bot = []"
  "trace scenario_bot = []"
  by (simp_all add: scenario_bot_def)

lemma asked_bot_fields:
  "users (ask_for_reason ann_call scenario_bot) = users scenario_bot"
  "team_chat (ask_for_reason ann_call scenario_bot) = team_chat scenario_bot"
  "queues (ask_for_reason ann_call scenario_bot) = queues scenario_bot"
  "sched (ask_for_reason ann_call scenario_bot) = []"
  "data_queue_name (fsm (ask_for_reason ann_call scenario_bot) (1, 1)) = Some ''dishes''"
  "trace (ask_for_reason ann_call scenario_bot) =
     [DeleteMessage 1 10, SendSticker 1 SAD_STICKER, SendMessage 1 AskReasonText None,
      AnswerCallback 1]"
  by (simp_all add: ask_for_reason_def Let_def ann_call_def emit_def scenario_bot_fields)

lemma ann_reason_fields:
  "msg_text ann_reason = ''sick''" "msg_from_id ann_reason = 1"
  "msg_full_name ann_reason = ''Ann''" "msg_chat ann_reason = 1"
  by (simp_all add: ann_reason_def)

lemma escalation_scenario:
  "inform_and_resolve 0 ann_reason (ask_for_reason ann_call scenario_bot) = Inr escalated_bot"
proof -
  have "\<exists>s. inform_and_resolve 0 ann_reason (ask_for_reason ann_call scenario_bot) = Inr s"
    using inform_and_resolve_escalates [of "ask_for_reason ann_call scenario_bot" ann_reason
        1 "- 100" "''dishes''" 0]
    by (simp add: asked_bot_fields ann_reason_fields scenario_bot_fields)
  then show ?thesis by (auto simp: escalated_bot_def)
qed

lemma escalated_bot_fields:
  "users escalated_bot = users scenario_bot"
  "team_chat escalated_bot = team_chat scenario_bot"
  "queues escalated_bot = queues scenario_bot"
  "sched escalated_bot =
     [\<lparr>job_id = (''dishes'', Some (- 100)), run_date = 7200000000,
       args = (- 100, ''Ann'', ''dishes'')\<rparr>]"
  "trace escalated_bot =
     [DeleteMessage 1 10, SendSticker 1 SAD_STICKER, SendMessage 1 AskReasonText None,
      AnswerCallback 1, SendMessage 1 ThankYouText None,
      SendMessage (- 100) (CallForSubstitute ''Ann'' ''dishes'' ''sick'')
        (Some (SwapKeyboard ''dishes'' 1))]"
proof -
  have e: "Inr escalated_bot = inform_and_resolve 0 ann_reason (ask_for_reason ann_call scenario_bot)"
    by (simp add: escalation_scenario)
  note r = inform_and_resolve_escalates [of "ask_for_reason ann_call scenario_bot" ann_reason
        1 "- 100" "''dishes''" 0, unfolded asked_bot_fields ann_reason_fields, 
        OF scenario_bot_fields(1) scenario_bot_fields(3)]
  have eq: "escalated_bot = (emit [SendMessage 1 ThankYouText None,
                 SendMessage (- 100) (CallForSubstitute ''Ann'' ''dishes'' ''sick'')
                   (Some (SwapKeyboard ''dishes'' 1))]
            ((ask_for_reason ann_call scenario_bot)\<lparr>sched := add_job (armed_job 0 ann_reason (- 100) ''dishes'') []\<rparr>))
          \<lparr>fsm := (fsm (ask_for_reason ann_call scenario_bot))((1, 1) :=
                    \<lparr>current_state = None, data_queue_name = None\<rparr>)\<rparr>"
    using e r by (simp add: asked_bot_fields ann_reason_fields)
  show "users escalated_bot = users scenario_bot"
    "team_chat escalated_bot = team_chat scenario_bot"
    "queues escalated_bot = queues scenario_bot"
    by (simp_all add: eq asked_bot_fields)
  show "sched escalated_bot =
     [\<lparr>job_id = (''dishes'', Some (- 100)), run_date = 7200000000,
       args = (- 100, ''Ann'', ''dishes'')\<rparr>]"
    by (simp add: eq add_job_def has_job_def armed_job_def get_later_time_def HOURS_def
        ann_reason_fields)
  show "trace escalated_bot =
     [DeleteMessage 1 10, SendSticker 1 SAD_STICKER, SendMessage 1 AskReasonText None,
      AnswerCallback 1, SendMessage 1 ThankYouText None,
      SendMessage (- 100) (CallForSubstitute ''Ann'' ''dishes'' ''sick'')
        (Some (SwapKeyboard ''dishes'' 1))]"
    by (simp add: eq asked_bot_fields)
qed

lemma timed_out_bot_fields:
  "users timed_out_bot = users scenario_bot"
  "team_chat timed_out_bot = team_chat scenario_bot"
  "queues timed_out_bot = queues scenario_bot"
  "sched timed_out_bot = []"
  "trace timed_out_bot = trace escalated_bot @
     [SendSticker (- 100) WHATEVER_STICKER,
      SendMessage (- 100) (SkipNotice ''dishes'' ''Ann'') None]"
  by (simp_all add: timed_out_bot_def run_job_def escalated_bot_fields skip_chore_today_def
      get_later_time_def HOURS_def)

subsection \<open>The accepted substitution\<close>

lemma swap_users_result:
  assumes q: "get_queue_array s (cq_team_id call) (cq_queue_name call) = Inr q"
    and sub: "substitute q (cq_from_id call) = Inr (Swapped ct_name q')"
  shows "\<exists>s'. swap_users call s = Inr s' \<and>
     get_queue_array s' (cq_team_id call) (cq_queue_name call) = Inr q' \<and>
     sched s' = filter (\<lambda>k. job_id k \<noteq> (cq_queue_name call, get_team_chat s (cq_from_id call)))
                  (sched s) \<and>
     trace s' = trace s @ [LogInfo ''Swapped two users successfully''] @
       (if has_job (cq_queue_name call, get_team_chat s (cq_from_id call)) (sched s) then []
        else [LogInfo ''Someone pressed I can do it after the time limit.'']) @
       [DeleteReplyMarkup (cq_chat call) (cq_message_id call),
        SendSticker (cq_chat call) YAY_STICKER,
        SendMessage (cq_chat call)
          (SwappedText (cq_first_name call) ct_name (cq_queue_name call)) None,
        AnswerCallback (cq_from_id call)]"
proof -
  let ?jid = "(cq_queue_name call, get_team_chat s (cq_from_id call))"
  let ?s1 = "emit [LogInfo ''Swapped two users successfully'']
               (update_queue (cq_team_id call) (cq_queue_name call) q' s)"
  let ?s' = "emit [DeleteReplyMarkup (cq_chat call) (cq_message_id call),
                SendSticker (cq_chat call) YAY_STICKER,
                SendMessage (cq_chat call)
                  (SwappedText (cq_first_name call) ct_name (cq_queue_name call)) None,
                AnswerCallback (cq_from_id call)] (cancel_job ?jid ?s1)"
  have r: "swap_users call s = Inr ?s'" by (rule swap_users_swapped [OF q sub])
  have "queues ?s' = queues (update_queue (cq_team_id call) (cq_queue_name call) q' s)"
    by simp
  then have g: "get_queue_array ?s' (cq_team_id call) (cq_queue_name call) = Inr q'"
    by (simp only: get_queue_array_cong get_queue_array_update_same)
  have sc: "sched ?s' = filter (\<lambda>k. job_id k \<noteq> ?jid) (sched s)"
    by (simp add: cancel_job_sched)
  have tr: "trace ?s' = trace s @ [LogInfo ''Swapped two users successfully''] @
       (if has_job ?jid (sched s) then []
        else [LogInfo ''Someone pressed I can do it after the time limit.'']) @
       [DeleteReplyMarkup (cq_chat call) (cq_message_id call),
        SendSticker (cq_chat call) YAY_STICKER,
        SendMessage (cq_chat call)
          (SwappedText (cq_first_name call) ct_name (cq_queue_name call)) None,
        AnswerCallback (cq_from_id call)]"
    by (simp add: cancel_job_trace)
  from r g sc tr show ?thesis by blast
qed


lemma bo_call_fields:
  "cq_from_id bo_call = 2" "cq_first_name bo_call = ''Bo''" "cq_chat bo_call = - 100"
  "cq_message_id bo_call = 11" "cq_queue_name bo_call = ''dishes''" "cq_team_id bo_call = 1"
  by (simp_all add: bo_call_def)

lemma scenario_stored_queue:
  "get_queue_array scenario_bot 1 ''dishes'' = Inr scenario_queue"
  "get_queue_array escalated_bot 1 ''dishes'' = Inr scenario_queue"
  "get_queue_array timed_out_bot 1 ''dishes'' = Inr scenario_queue"
  "get_team_chat scenario_bot 2 = Some (- 100)"
  "get_team_chat escalated_bot 2 = Some (- 100)"
  "get_team_chat timed_out_bot 2 = Some (- 100)"
  by (simp_all add: get_queue_array_def get_team_chat_def escalated_bot_fields
      timed_out_bot_fields scenario_bot_fields)


subsection \<open>Running and adding jobs\<close>

lemma run_job_fired:
  assumes "find (\<lambda>k. job_id k = jid) (sched s) = Some j" and "run_date j \<le> now"
  shows "run_job jid now s =
     skip_chore_today (fst (args j)) (fst (snd (args j))) (snd (snd (args j)))
       (s\<lparr>sched := filter (\<lambda>k. job_id k \<noteq> jid) (sched s)\<rparr>)"
  using assms by (simp add: run_job_def split: prod.splits)

lemma run_job_idle:
  assumes "\<not> has_job jid (sched s)"
  shows "run_job jid now s = s"
proof -
  from assms have "find (\<lambda>k. job_id k = jid) (sched s) = None"
    by (auto simp: has_job_def find_None_iff)
  then show ?thesis by (simp add: run_job_def)
qed

lemma skip_chore_today_simps [simp]:
  "users (skip_chore_today g u n s) = users s"
  "team_chat (skip_chore_today g u n s) = team_chat s"
  "queues (skip_chore_today g u n s) = queues s"
  "sched (skip_chore_today g u n s) = sched s"
  "fsm (skip_chore_today g u n s) = fsm s"
  "trace (skip_chore_today g u n s) =
     trace s @ [SendSticker g WHATEVER_STICKER, SendMessage g (SkipNotice n u) None]"
  by (simp_all add: skip_chore_today_def)

lemma run_job_frame:
  assumes "find (\<lambda>k. job_id k = jid) (sched s) = Some j" and "run_date j \<le> now"
  shows "users (run_job jid now s) = users s"
    and "team_chat (run_job jid now s) = team_chat s"
    and "queues (run_job jid now s) = queues s"
    and "fsm (run_job jid now s) = fsm s"
    and "sched (run_job jid now s) = filter (\<lambda>k. job_id k \<noteq> jid) (sched s)"
    and "trace (run_job jid now s) =
       trace s @ [SendSticker (fst (args j)) WHATEVER_STICKER,
                  SendMessage (fst (args j))
                    (SkipNotice (snd (snd (args j))) (fst (snd (args j)))) None]"
  by (simp_all add: run_job_fired [OF assms])

lemma run_job_once:
  assumes "find (\<lambda>k. job_id k = jid) (sched s) = Some j" and "run_date j \<le> now"
  shows "run_job jid later (run_job jid now s) = run_job jid now s"
  by (rule run_job_idle) (simp add: run_job_frame(5) [OF assms] has_job_filter)

lemma find_replace:
  assumes "has_job (job_id j) js"
  shows "find (\<lambda>k. job_id k = job_id j) (map (\<lambda>k. if job_id k = job_id j then j else k) js)
           = Some j"
  using assms by (induction js) (auto simp: has_job_def)

lemma find_append_new:
  assumes "\<not> has_job (job_id j) js"
  shows "find (\<lambda>k. job_id k = job_id j) (js @ [j]) = Some j"
  using assms by (induction js) (auto simp: has_job_def)

lemma find_add_job: "find (\<lambda>k. job_id k = job_id j) (add_job j js) = Some j"
  by (simp add: add_job_def find_replace find_append_new)

lemma map_job_id_add_job:
  "map job_id (add_job j js) =
     (if has_job (job_id j) js then map job_id js else map job_id js @ [job_id j])"
proof -
  have "map job_id (map (\<lambda>k. if job_id k = job_id j then j else k) js) = map job_id js"
    by (induction js) auto
  then show ?thesis by (simp add: add_job_def)
qed

lemma distinct_add_job:
  assumes "distinct (map job_id js)"
  shows "distinct (map job_id (add_job j js))"
  using assms by (auto simp: map_job_id_add_job has_job_def)

lemma filter_absent:
  assumes "\<not> has_job jid js"
  shows "filter (\<lambda>k. job_id k = jid) js = []"
  using assms by (induction js) (auto simp: has_job_def)

lemma replace_absent:
  assumes "\<not> has_job (job_id j) js"
  shows "map (\<lambda>k. if job_id k = job_id j then j else k) js = js"
  using assms by (induction js) (auto simp: has_job_def)

lemma filter_replace:
  assumes "distinct (map job_id js)" and "has_job (job_id j) js"
  shows "filter (\<lambda>k. job_id k = job_id j)
           (map (\<lambda>k. if job_id k = job_id j then j else k) js) = [j]"
  using assms
proof (induction js)
  case Nil
  then show ?case by (simp add: has_job_def)
next
  case (Cons a js)
  show ?case
  proof (cases "job_id a = job_id j")
    case True
    with Cons.prems(1) have n: "\<not> has_job (job_id j) js" by (auto simp: has_job_def)
    from True show ?thesis
      by (simp add: replace_absent [OF n] filter_absent [OF n])
  next
    case False
    with Cons.prems have "distinct (map job_id js)" "has_job (job_id j) js"
      by (auto simp: has_job_def)
    with Cons.IH False show ?thesis by simp
  qed
qed

lemma filter_add_job:
  assumes "distinct (map job_id js)"
  shows "filter (\<lambda>k. job_id k = job_id j) (add_job j js) = [j]"
  using assms by (simp add: add_job_def filter_replace filter_absent)

lemma escalated_find:
  "find (\<lambda>k. job_id k = (''dishes'', Some (- 100))) (sched escalated_bot) =
     Some \<lparr>job_id = (''dishes'', Some (- 100)), run_date = 7200000000,
           args = (- 100, ''Ann'', ''dishes'')\<rparr>"
  by (simp add: escalated_bot_fields)


lemma get_team_chat_run_job:
  assumes "find (\<lambda>k. job_id k = jid) (sched s) = Some j" and "run_date j \<le> now"
  shows "get_team_chat (run_job jid now s) u = get_team_chat s u"
  by (rule get_team_chat_cong) (simp_all add: run_job_frame [OF assms])


lemma ask_for_reason_simps [simp]:
  "users (ask_for_reason call s) = users s"
  "team_chat (ask_for_reason call s) = team_chat s"
  "queues (ask_for_reason call s) = queues s"
  "sched (ask_for_reason call s) = sched s"
  "data_queue_name (fsm (ask_for_reason call s) (cq_chat call, cq_from_id call)) =
     Some (cq_queue_name call)"
  "current_state (fsm (ask_for_reason call s) (cq_chat call, cq_from_id call)) =
     Some TrackingQueue_waiting_for_reason"
  by (simp_all add: ask_for_reason_def Let_def emit_def)

lemma inform_and_resolve_sched:
  assumes "users s (msg_from_id m) = Some team" and "team_chat s team = Some g" and "g \<noteq> 0"
    and "data_queue_name (fsm s (msg_chat m, msg_from_id m)) = Some qn"
  shows "\<exists>s'. inform_and_resolve now m s = Inr s' \<and>
               sched s' = add_job (armed_job now m g qn) (sched s) \<and>
               queues s' = queues s"
  by (simp add: inform_and_resolve_escalates [OF assms])


subsection \<open>Who is accepted as a substitute\<close>

lemma get_current_turn_Some:
  assumes "get_current_turn q = Some (h, n, p)"
  shows "p < length q" and "h = user_id (q ! p)" and "n = name (q ! p)"
  using find_turn_Some [of 0 q h n p] assms by (simp_all add: get_current_turn_def)

lemma user_position_distinct:
  assumes "distinct (map user_id q)" and "p < length q"
  shows "user_position q (user_id (q ! p)) = Some p"
proof -
  from assms(2) have "user_id (q ! p) \<in> user_id ` set q" by simp
  then obtain p' where p': "user_position q (user_id (q ! p)) = Some p'"
    using user_position_None [of q "user_id (q ! p)"] by (cases "user_position q (user_id (q ! p))") auto
  from user_position_Some [OF p'] have l: "p' < length q" and e: "user_id (q ! p') = user_id (q ! p)"
    by simp_all
  have "(map user_id q ! p' = map user_id q ! p) = (p' = p)"
    using assms l by (intro nth_eq_iff_index_eq) simp_all
  with e l assms(2) have "p' = p" by simp
  with p' show ?thesis by simp
qed

lemma substitute_accepts:
  assumes h: "get_current_turn q = Some (holder_id, holder_name, ct_pos)"
    and p: "user_position q uid = Some p" and ne: "p \<noteq> ct_pos"
  shows "\<exists>q'. substitute q uid = Inr (Swapped holder_name q')"
proof -
  from get_current_turn_Some(1) [OF h] have "\<not> length q \<le> ct_pos" by simp
  then show ?thesis using h p ne by (simp add: substitute_def reassign_current_turn_def)
qed

text \<open>
  The outcomes of \<^verbatim>\<open>swap_users\<close> for a stored queue with a turn holder whose user
  ids are distinct: a responder who is not in the queue and a responder who is
  the holder are answered and nothing but the list of effects changes; a
  responder who is in the queue and is not the holder is accepted and the
  swapped queue is stored. Without distinct ids the last slot with the
  responder's id decides, and the last conjunct still holds: an attempt from
  the holder's own index is turned away.
\<close>

lemma swap_users_outcomes:
  assumes q: "get_queue_array s (cq_team_id call) (cq_queue_name call) = Inr q"
    and d: "distinct (map user_id q)"
    and h: "get_current_turn q = Some (holder_id, holder_name, ct_pos)"
  shows
    "(cq_from_id call \<notin> user_id ` set q \<longrightarrow>
        swap_users call s =
          Inr (s\<lparr>trace := trace s @
                 [SendSticker (cq_chat call) NOPE_STICKER,
                  SendMessage (cq_chat call) NotInGroupText None,
                  AnswerCallback (cq_from_id call)]\<rparr>)) \<and>
     (cq_from_id call = holder_id \<longrightarrow>
        swap_users call s =
          Inr (s\<lparr>trace := trace s @
                 [SendSticker (cq_chat call) CONFUSED_STICKER,
                  SendMessage (cq_chat call) (SelfSwapText (cq_first_name call)) None,
                  AnswerCallback (cq_from_id call)]\<rparr>)) \<and>
     (cq_from_id call \<in> user_id ` set q \<and> cq_from_id call \<noteq> holder_id \<longrightarrow>
        (\<exists>q' s'. substitute q (cq_from_id call) = Inr (Swapped holder_name q') \<and>
                 swap_users call s = Inr s' \<and>
                 get_queue_array s' (cq_team_id call) (cq_queue_name call) = Inr q')) \<and>
     (user_position q (cq_from_id call) = Some ct_pos \<longrightarrow>
        substitute q (cq_from_id call) = Inr SelfSwap)"
proof (intro conjI impI)
  assume "cq_from_id call \<notin> user_id ` set q"
  then have "user_position q (cq_from_id call) = None" by (simp add: user_position_None)
  with h have "substitute q (cq_from_id call) = Inr NotInGroup" by (simp add: substitute_def)
  from swap_users_not_in_group [OF q this]
  show "swap_users call s =
          Inr (s\<lparr>trace := trace s @
                 [SendSticker (cq_chat call) NOPE_STICKER,
                  SendMessage (cq_chat call) NotInGroupText None,
                  AnswerCallback (cq_from_id call)]\<rparr>)"
    by (simp add: emit_def)
next
  assume "cq_from_id call = holder_id"
  with get_current_turn_Some [OF h] have "cq_from_id call = user_id (q ! ct_pos)" by simp
  with user_position_distinct [OF d get_current_turn_Some(1) [OF h]]
  have "user_position q (cq_from_id call) = Some ct_pos" by simp
  with h have "substitute q (cq_from_id call) = Inr SelfSwap" by (simp add: substitute_def)
  from swap_users_self [OF q this]
  show "swap_users call s =
          Inr (s\<lparr>trace := trace s @
                 [SendSticker (cq_chat call) CONFUSED_STICKER,
                  SendMessage (cq_chat call) (SelfSwapText (cq_first_name call)) None,
                  AnswerCallback (cq_from_id call)]\<rparr>)"
    by (simp add: emit_def)
next
  assume a: "cq_from_id call \<in> user_id ` set q \<and> cq_from_id call \<noteq> holder_id"
  then obtain p where p: "user_position q (cq_from_id call) = Some p"
    using user_position_None [of q "cq_from_id call"]
    by (cases "user_position q (cq_from_id call)") auto
  from user_position_Some [OF p] have "user_id (q ! p) = cq_from_id call" by simp
  with a get_current_turn_Some(2) [OF h] have "p \<noteq> ct_pos" by auto
  from substitute_accepts [OF h p this] obtain q' where
    sub: "substitute q (cq_from_id call) = Inr (Swapped holder_name q')" ..
  from swap_users_result [OF q sub] sub
  show "\<exists>q' s'. substitute q (cq_from_id call) = Inr (Swapped holder_name q') \<and>
                 swap_users call s = Inr s' \<and>
                 get_queue_array s' (cq_team_id call) (cq_queue_name call) = Inr q'"
    by blast
next
  assume "user_position q (cq_from_id call) = Some ct_pos"
  with h show "substitute q (cq_from_id call) = Inr SelfSwap" by (simp add: substitute_def)
qed

lemma swap_users_outcomes_scenario:
  "get_queue_array scenario_bot 1 ''dishes'' = Inr scenario_queue \<and>
   distinct (map user_id scenario_queue) \<and>
   get_current_turn scenario_queue = Some (1, ''Ann'', 0) \<and>
   swap_users (bo_call\<lparr>cq_from_id := 9, cq_first_name := ''Eve''\<rparr>) scenario_bot =
     Inr (scenario_bot\<lparr>trace :=
            [SendSticker (- 100) NOPE_STICKER, SendMessage (- 100) NotInGroupText None,
             AnswerCallback 9]\<rparr>) \<and>
   swap_users (bo_call\<lparr>cq_from_id := 1, cq_first_name := ''Ann''\<rparr>) scenario_bot =
     Inr (scenario_bot\<lparr>trace :=
            [SendSticker (- 100) CONFUSED_STICKER,
             SendMessage (- 100) (SelfSwapText ''Ann'') None, AnswerCallback 1]\<rparr>) \<and>
   (\<exists>q' s'. substitute scenario_queue 2 = Inr (Swapped ''Ann'' q') \<and>
            swap_users bo_call scenario_bot = Inr s' \<and>
            get_queue_array s' 1 ''dishes'' = Inr q')"
proof -
  have d: "distinct (map user_id scenario_queue)"
    by (simp add: scenario_queue_def ann_def bo_def cy_def)
  have ids: "user_id ` set scenario_queue = {1, 2, 3}"
    by (auto simp: scenario_queue_def ann_def bo_def cy_def)
  have q: "get_queue_array scenario_bot (cq_team_id (c::callback_query)) (cq_queue_name c) =
           Inr scenario_queue"
    if "cq_team_id c = 1" "cq_queue_name c = ''dishes''" for c
    using that by (simp add: scenario_stored_queue)
  have q1: "get_queue_array scenario_bot
      (cq_team_id (bo_call\<lparr>cq_from_id := 9, cq_first_name := ''Eve''\<rparr>))
      (cq_queue_name (bo_call\<lparr>cq_from_id := 9, cq_first_name := ''Eve''\<rparr>)) = Inr scenario_queue"
    by (rule q) (simp_all add: bo_call_fields)
  have q2: "get_queue_array scenario_bot
      (cq_team_id (bo_call\<lparr>cq_from_id := 1, cq_first_name := ''Ann''\<rparr>))
      (cq_queue_name (bo_call\<lparr>cq_from_id := 1, cq_first_name := ''Ann''\<rparr>)) = Inr scenario_queue"
    by (rule q) (simp_all add: bo_call_fields)
  have q3: "get_queue_array scenario_bot (cq_team_id bo_call) (cq_queue_name bo_call) =
      Inr scenario_queue"
    by (rule q) (simp_all add: bo_call_fields)
  note w1 = swap_users_outcomes [OF q1 d scenario_simps(1)]
  note w2 = swap_users_outcomes [OF q2 d scenario_simps(1)]
  note w3 = swap_users_outcomes [OF q3 d scenario_simps(1)]
  have a: "swap_users (bo_call\<lparr>cq_from_id := 9, cq_first_name := ''Eve''\<rparr>) scenario_bot =
     Inr (scenario_bot\<lparr>trace :=
            [SendSticker (- 100) NOPE_STICKER, SendMessage (- 100) NotInGroupText None,
             AnswerCallback 9]\<rparr>)"
    using w1 by (simp add: ids bo_call_fields scenario_bot_fields)
  have b: "swap_users (bo_call\<lparr>cq_from_id := 1, cq_first_name := ''Ann''\<rparr>) scenario_bot =
     Inr (scenario_bot\<lparr>trace :=
            [SendSticker (- 100) CONFUSED_STICKER,
             SendMessage (- 100) (SelfSwapText ''Ann'') None, AnswerCallback 1]\<rparr>)"
    using w2 by (simp add: bo_call_fields scenario_bot_fields)
  have c: "\<exists>q' s'. substitute scenario_queue 2 = Inr (Swapped ''Ann'' q') \<and>
            swap_users bo_call scenario_bot = Inr s' \<and>
            get_queue_array s' 1 ''dishes'' = Inr q'"
    using w3 by (simp add: ids bo_call_fields)
  show ?thesis
    using scenario_stored_queue(1) d scenario_simps(1) a b c
    by (intro conjI) assumption+
qed

subsection \<open>The advancement is cyclic\<close>

text \<open>
  Claim C9. For every queue with exactly one turn holder (so with at least
  one member), applying the advancement as many times as the queue has
  members succeeds and gives back the very same queue: the same members in
  the same order, the flag on its original holder.
\<close>

theorem advance_cyclic:
  assumes "one_turn q"
  shows "advance_n (length q) q = Inr q"
proof -
  from assms obtain i where h: "holders q = {i}" by (auto simp: one_turn_holders)
  then have i: "i < length q" by (auto simp: holders_def)
  from advance_n_place [OF i, of "length q"] i
  have "advance_n (length q) (place i q) = Inr (place i q)" by simp
  then show ?thesis by (simp add: place_id [OF h])
qed

theorem advance_cyclic_witness:
  "one_turn scenario_queue \<and>
   advance_n (length scenario_queue) scenario_queue = Inr scenario_queue"
  using advance_cyclic [of scenario_queue]
  by (simp add: one_turn_def scenario_queue_def ann_def bo_def cy_def)

subsection \<open>The single-turn invariant\<close>

text \<open>
  Claim C2. Let exactly one member of the queue hold the turn. Then the
  advancement succeeds and exactly one member of its result holds the turn;
  a substitution attempt is either one of the two rejections, which produce
  no queue, or a swap in whose result exactly one member holds the turn; and
  a reordering either raises IndexError, when the positions differ and the
  source position is out of range, or gives a queue in which exactly one
  member holds the turn.
\<close>

theorem single_turn_preserved:
  assumes "one_turn q"
  shows "(\<exists>q'. advance q = Inr q' \<and> one_turn q') \<and>
         (substitute q uid = Inr NotInGroup \<or> substitute q uid = Inr SelfSwap \<or>
            (\<exists>n q'. substitute q uid = Inr (Swapped n q') \<and> one_turn q')) \<and>
         ((\<exists>q'. reorder q f t = Inr q' \<and> one_turn q') \<or>
            (reorder q f t = Inl IndexError \<and> f \<noteq> t \<and>
               \<not> (- int (length q) \<le> f \<and> f < int (length q))))"
proof (intro conjI)
  show "\<exists>q'. advance q = Inr q' \<and> one_turn q'" by (rule advance_one_turn [OF assms])
next
  from substitute_total [OF assms, of uid] obtain r where r: "substitute q uid = Inr r" ..
  show "substitute q uid = Inr NotInGroup \<or> substitute q uid = Inr SelfSwap \<or>
        (\<exists>n q'. substitute q uid = Inr (Swapped n q') \<and> one_turn q')"
  proof (cases r)
    case NotInGroup
    with r show ?thesis by simp
  next
    case SelfSwap
    with r show ?thesis by simp
  next
    case (Swapped n q')
    with r have "substitute q uid = Inr (Swapped n q')" by simp
    with substitute_one_turn [OF assms this] show ?thesis by blast
  qed
next
  from reorder_cases [of q f t]
  show "(\<exists>q'. reorder q f t = Inr q' \<and> one_turn q') \<or>
        (reorder q f t = Inl IndexError \<and> f \<noteq> t \<and>
           \<not> (- int (length q) \<le> f \<and> f < int (length q)))"
  proof
    assume "\<exists>q'. reorder q f t = Inr q' \<and> mset q' = mset q"
    then obtain q' where q': "reorder q f t = Inr q'" "mset q' = mset q" by blast
    from one_turn_cong_mset [OF q'(2)] assms have "one_turn q'" by simp
    with q'(1) show ?thesis by blast
  next
    assume "reorder q f t = Inl IndexError \<and> f \<noteq> t \<and>
      \<not> (- int (length q) \<le> f \<and> f < int (length q))"
    then show ?thesis by blast
  qed
qed


theorem single_turn_preserved_witness:
  "one_turn scenario_queue \<and>
   (\<exists>q'. advance scenario_queue = Inr q' \<and> one_turn q') \<and>
   (\<exists>n q'. substitute scenario_queue 2 = Inr (Swapped n q') \<and> one_turn q') \<and>
   (\<exists>q'. reorder scenario_queue 0 2 = Inr q' \<and> one_turn q')"
proof -
  have a: "one_turn scenario_queue"
    by (simp add: one_turn_def scenario_queue_def ann_def bo_def cy_def)
  from single_turn_preserved [OF a, of 2 0 2] a show ?thesis
    by (simp add: substitute_scenario_bo reorder_scenario)
qed

subsection \<open>Reordering moves one member and touches no flag\<close>

text \<open>
  Claim C10. Whatever queue a reordering returns has the members of the
  original queue, each with all its fields and so with its turn flag, as a
  multiset. With equal positions the queue is returned as it is. With two
  different positions in range the result has the same length, has the member
  that was at the source position at the destination position, and without
  that slot it is the original queue without the source slot.
\<close>

theorem reorder_frame:
  "(\<forall>q'. reorder q from_index to_index = Inr q' \<longrightarrow> mset q' = mset q) \<and>
   reorder q i i = Inr q \<and>
   (0 \<le> from_index \<and> from_index < int (length q) \<and>
    0 \<le> to_index \<and> to_index < int (length q) \<and> from_index \<noteq> to_index \<longrightarrow>
      (\<exists>q'. reorder q from_index to_index = Inr q' \<and>
            length q' = length q \<and>
            q' ! nat to_index = q ! nat from_index \<and>
            take (nat to_index) q' @ drop (Suc (nat to_index)) q' =
              take (nat from_index) q @ drop (Suc (nat from_index)) q))"
proof (intro conjI allI impI)
  fix q' assume "reorder q from_index to_index = Inr q'"
  then show "mset q' = mset q" by (rule reorder_mset)
next
  show "reorder q i i = Inr q" by (simp add: reorder_def)
next
  assume a: "0 \<le> from_index \<and> from_index < int (length q) \<and>
    0 \<le> to_index \<and> to_index < int (length q) \<and> from_index \<noteq> to_index"
  define rest where "rest = take (nat from_index) q @ drop (Suc (nat from_index)) q"
  define q' where "q' = take (nat to_index) rest @ q ! nat from_index # drop (nat to_index) rest"
  from a have r: "reorder q from_index to_index = Inr q'"
    unfolding q'_def rest_def by (intro reorder_in_range) simp_all
  from a have lr: "Suc (length rest) = length q" unfolding rest_def by auto
  with a have k: "nat to_index \<le> length rest" by linarith
  have "length q' = Suc (length rest)" unfolding q'_def by (rule nth_insert_at(3) [OF k])
  with lr have "length q' = length q" by simp
  moreover have "q' ! nat to_index = q ! nat from_index"
    unfolding q'_def by (rule nth_insert_at(1) [OF k])
  moreover have "take (nat to_index) q' @ drop (Suc (nat to_index)) q' = rest"
    unfolding q'_def by (rule nth_insert_at(2) [OF k])
  ultimately show "\<exists>q'. reorder q from_index to_index = Inr q' \<and>
            length q' = length q \<and>
            q' ! nat to_index = q ! nat from_index \<and>
            take (nat to_index) q' @ drop (Suc (nat to_index)) q' =
              take (nat from_index) q @ drop (Suc (nat from_index)) q"
    using r unfolding rest_def by blast
qed


theorem reorder_frame_witness:
  "reorder scenario_queue 0 2 = Inr [bo, cy, ann] \<and>
   mset [bo, cy, ann] = mset scenario_queue \<and>
   reorder scenario_queue 1 1 = Inr scenario_queue \<and>
   (0::int) \<le> 0 \<and> (0::int) < int (length scenario_queue) \<and>
   (0::int) \<le> 2 \<and> (2::int) < int (length scenario_queue) \<and> (0::int) \<noteq> 2 \<and>
   [bo, cy, ann] ! nat 2 = scenario_queue ! nat 0"
  using reorder_frame [of scenario_queue 0 2 1]
  by (simp add: reorder_scenario) (simp add: scenario_queue_def)


subsection \<open>Scenario A\<close>

text \<open>
  Claim C1, evaluated at the scenario: in the queue of Ann, Bo and Cy with
  the turn on Ann, the substitution by Bo gives the order Bo, Ann, Cy, and the
  turn holder of the result is Bo at index 0, not Ann at index 1.
\<close>

theorem substitute_scenario_A:
  "substitute scenario_queue (user_id bo) =
     Inr (Swapped ''Ann'' [bo\<lparr>current_turn := True\<rparr>, ann\<lparr>current_turn := False\<rparr>, cy]) \<and>
   map name [bo\<lparr>current_turn := True\<rparr>, ann\<lparr>current_turn := False\<rparr>, cy] =
     [''Bo'', ''Ann'', ''Cy''] \<and>
   get_current_turn [bo\<lparr>current_turn := True\<rparr>, ann\<lparr>current_turn := False\<rparr>, cy] =
     Some (user_id bo, ''Bo'', 0)"
proof -
  have "user_id bo = 2" by (simp add: bo_def)
  then show ?thesis
    by (simp add: substitute_scenario_bo) (simp add: get_current_turn_def ann_def bo_def cy_def)
qed

subsection \<open>Cancelling the timer\<close>

text \<open>
  Claim C8. When the attempt is accepted, \<^verbatim>\<open>swap_users\<close> returns normally, the
  stored queue is the swapped one, and afterwards no job has the id built
  from the queue name and the responder's group chat. Whether or not such a
  job existed, the responder gets the same confirmation; the only difference
  is the log line written when the job was not found.
\<close>

theorem valid_swap_cancels_timer:
  assumes "get_queue_array s (cq_team_id call) (cq_queue_name call) = Inr q"
    and "substitute q (cq_from_id call) = Inr (Swapped ct_name q')"
  shows "\<exists>s'. swap_users call s = Inr s' \<and>
     get_queue_array s' (cq_team_id call) (cq_queue_name call) = Inr q' \<and>
     \<not> has_job (cq_queue_name call, get_team_chat s (cq_from_id call)) (sched s') \<and>
     trace s' = trace s @ [LogInfo ''Swapped two users successfully''] @
       (if has_job (cq_queue_name call, get_team_chat s (cq_from_id call)) (sched s) then []
        else [LogInfo ''Someone pressed I can do it after the time limit.'']) @
       [DeleteReplyMarkup (cq_chat call) (cq_message_id call),
        SendSticker (cq_chat call) YAY_STICKER,
        SendMessage (cq_chat call)
          (SwappedText (cq_first_name call) ct_name (cq_queue_name call)) None,
        AnswerCallback (cq_from_id call)]"
proof -
  from swap_users_result [OF assms] obtain s' where s': "swap_users call s = Inr s'"
    "get_queue_array s' (cq_team_id call) (cq_queue_name call) = Inr q'"
    "sched s' = filter (\<lambda>k. job_id k \<noteq> (cq_queue_name call, get_team_chat s (cq_from_id call)))
                  (sched s)"
    "trace s' = trace s @ [LogInfo ''Swapped two users successfully''] @
       (if has_job (cq_queue_name call, get_team_chat s (cq_from_id call)) (sched s) then []
        else [LogInfo ''Someone pressed I can do it after the time limit.'']) @
       [DeleteReplyMarkup (cq_chat call) (cq_message_id call),
        SendSticker (cq_chat call) YAY_STICKER,
        SendMessage (cq_chat call)
          (SwappedText (cq_first_name call) ct_name (cq_queue_name call)) None,
        AnswerCallback (cq_from_id call)]"
    by blast
  from s'(3) have "\<not> has_job (cq_queue_name call, get_team_chat s (cq_from_id call)) (sched s')"
    by (simp add: has_job_filter)
  with s'(1,2,4) show ?thesis by blast
qed


theorem valid_swap_cancels_timer_witness:
  "get_queue_array timed_out_bot 1 ''dishes'' = Inr scenario_queue \<and>
   \<not> has_job (''dishes'', Some (- 100)) (sched timed_out_bot) \<and>
   (\<exists>s'. swap_users bo_call timed_out_bot = Inr s' \<and>
      get_queue_array s' 1 ''dishes'' =
        Inr [bo\<lparr>current_turn := True\<rparr>, ann\<lparr>current_turn := False\<rparr>, cy] \<and>
      \<not> has_job (''dishes'', Some (- 100)) (sched s') \<and>
      trace s' = trace timed_out_bot @
        [LogInfo ''Swapped two users successfully'',
         LogInfo ''Someone pressed I can do it after the time limit.'',
         DeleteReplyMarkup (- 100) 11, SendSticker (- 100) YAY_STICKER,
         SendMessage (- 100) (SwappedText ''Bo'' ''Ann'' ''dishes'') None,
         AnswerCallback 2])"
  using valid_swap_cancels_timer [of timed_out_bot bo_call scenario_queue "''Ann''"
      "[bo\<lparr>current_turn := True\<rparr>, ann\<lparr>current_turn := False\<rparr>, cy]"]
  by (simp add: bo_call_fields scenario_stored_queue substitute_scenario_bo has_job_def
      timed_out_bot_fields)

subsection \<open>The timeout leaves the queue alone\<close>

text \<open>
  Claim C4. When the scheduler runs a job whose run date has come, the
  collection of queues is unchanged, so every stored queue and every turn flag
  is what it was; the effects are extended by the sticker and by exactly one
  skip notice, sent to the chat of the job and naming the queue and the user
  the job was armed with; the job is gone afterwards, and running it again
  changes nothing.
\<close>

theorem timeout_frame:
  assumes "find (\<lambda>k. job_id k = jid) (sched s) = Some j" and "run_date j \<le> now"
  shows "queues (run_job jid now s) = queues s \<and>
         get_queue_array (run_job jid now s) team_id queue_name =
           get_queue_array s team_id queue_name \<and>
         trace (run_job jid now s) =
           trace s @ [SendSticker (fst (args j)) WHATEVER_STICKER,
                      SendMessage (fst (args j))
                        (SkipNotice (snd (snd (args j))) (fst (snd (args j)))) None] \<and>
         \<not> has_job jid (sched (run_job jid now s)) \<and>
         run_job jid later (run_job jid now s) = run_job jid now s"
proof -
  note f = run_job_frame [OF assms]
  have "get_queue_array (run_job jid now s) team_id queue_name =
        get_queue_array s team_id queue_name"
    by (rule get_queue_array_cong [OF f(3)])
  moreover have "\<not> has_job jid (sched (run_job jid now s))"
    by (simp add: f(5) has_job_filter)
  ultimately show ?thesis using f(3) f(6) run_job_once [OF assms] by simp
qed


theorem timeout_frame_witness:
  "get_queue_array escalated_bot 1 ''dishes'' = Inr scenario_queue \<and>
   get_queue_array timed_out_bot 1 ''dishes'' = Inr scenario_queue \<and>
   get_current_turn scenario_queue = Some (1, ''Ann'', 0) \<and>
   trace timed_out_bot = trace escalated_bot @
     [SendSticker (- 100) WHATEVER_STICKER,
      SendMessage (- 100) (SkipNotice ''dishes'' ''Ann'') None] \<and>
   \<not> has_job (''dishes'', Some (- 100)) (sched timed_out_bot) \<and>
   run_job (''dishes'', Some (- 100)) (get_later_time 0 + 1) timed_out_bot = timed_out_bot"
proof -
  have due: "run_date \<lparr>job_id = (''dishes'', Some (- 100)), run_date = 7200000000,
           args = (- 100, ''Ann'', ''dishes'')\<rparr> \<le> get_later_time 0"
    by (simp add: get_later_time_def HOURS_def)
  note w = timeout_frame [OF escalated_find due, of 1 "''dishes''" "get_later_time 0 + 1",
      folded timed_out_bot_def]
  show ?thesis using w by (simp add: scenario_stored_queue scenario_simps)
qed


subsection \<open>A substitution after the timeout\<close>

text \<open>
  Claim C3 fails on the scenario: after the escalation and the timeout no job
  is left, the stored queue is still Ann, Bo, Cy, and Bo's attempt is not
  turned away: the stored queue becomes Bo, Ann, Cy with the flag on Bo, and
  Bo is sent the confirmation.
\<close>

theorem late_substitution_counterexample:
  "sched timed_out_bot = [] \<and>
   get_queue_array timed_out_bot 1 ''dishes'' = Inr [ann, bo, cy] \<and>
   queue_after (swap_users bo_call timed_out_bot) 1 ''dishes'' =
     Inr [bo\<lparr>current_turn := True\<rparr>, ann\<lparr>current_turn := False\<rparr>, cy] \<and>
   [bo\<lparr>current_turn := True\<rparr>, ann\<lparr>current_turn := False\<rparr>, cy] \<noteq> [ann, bo, cy] \<and>
   trace_after (swap_users bo_call timed_out_bot) = trace timed_out_bot @
     [LogInfo ''Swapped two users successfully'',
      LogInfo ''Someone pressed I can do it after the time limit.'',
      DeleteReplyMarkup (- 100) 11, SendSticker (- 100) YAY_STICKER,
      SendMessage (- 100) (SwappedText ''Bo'' ''Ann'' ''dishes'') None,
      AnswerCallback 2]"
proof -
  have q: "get_queue_array timed_out_bot (cq_team_id bo_call) (cq_queue_name bo_call) =
           Inr scenario_queue"
    by (simp add: bo_call_fields scenario_stored_queue)
  have sub: "substitute scenario_queue (cq_from_id bo_call) =
     Inr (Swapped ''Ann'' [bo\<lparr>current_turn := True\<rparr>, ann\<lparr>current_turn := False\<rparr>, cy])"
    by (simp add: bo_call_fields substitute_scenario_bo)
  from swap_users_result [OF q sub] obtain s' where
    "swap_users bo_call timed_out_bot = Inr s'"
    "get_queue_array s' (cq_team_id bo_call) (cq_queue_name bo_call) =
       Inr [bo\<lparr>current_turn := True\<rparr>, ann\<lparr>current_turn := False\<rparr>, cy]"
    "trace s' = trace timed_out_bot @ [LogInfo ''Swapped two users successfully''] @
       (if has_job (cq_queue_name bo_call, get_team_chat timed_out_bot (cq_from_id bo_call))
             (sched timed_out_bot) then []
        else [LogInfo ''Someone pressed I can do it after the time limit.'']) @
       [DeleteReplyMarkup (cq_chat bo_call) (cq_message_id bo_call),
        SendSticker (cq_chat bo_call) YAY_STICKER,
        SendMessage (cq_chat bo_call)
          (SwappedText (cq_first_name bo_call) ''Ann'' (cq_queue_name bo_call)) None,
        AnswerCallback (cq_from_id bo_call)]"
    by blast
  then show ?thesis
    by (simp add: queue_after_def trace_after_def bo_call_fields timed_out_bot_fields
        scenario_stored_queue has_job_def)
      (simp add: scenario_queue_def ann_def bo_def)
qed

text \<open>
  Claim C3, amended. \<^verbatim>\<open>swap_users\<close> consults no record of the conflict. When the
  job of the conflict has run, an attempt that the queue computation accepts
  is applied all the same: the handler returns normally, the swapped queue is
  stored, the missing job is only logged, and the responder is sent the
  confirmation.
\<close>

theorem late_substitution_applied:
  assumes "find (\<lambda>k. job_id k = (cq_queue_name call, get_team_chat s (cq_from_id call)))
             (sched s) = Some j"
    and "run_date j \<le> now"
    and "get_queue_array s (cq_team_id call) (cq_queue_name call) = Inr q"
    and "substitute q (cq_from_id call) = Inr (Swapped ct_name q')"
  shows "\<exists>s'. swap_users call
                (run_job (cq_queue_name call, get_team_chat s (cq_from_id call)) now s) = Inr s' \<and>
     get_queue_array s' (cq_team_id call) (cq_queue_name call) = Inr q' \<and>
     trace s' =
       trace (run_job (cq_queue_name call, get_team_chat s (cq_from_id call)) now s) @
       [LogInfo ''Swapped two users successfully'',
        LogInfo ''Someone pressed I can do it after the time limit.'',
        DeleteReplyMarkup (cq_chat call) (cq_message_id call),
        SendSticker (cq_chat call) YAY_STICKER,
        SendMessage (cq_chat call)
          (SwappedText (cq_first_name call) ct_name (cq_queue_name call)) None,
        AnswerCallback (cq_from_id call)]"
proof -
  define jid where "jid = (cq_queue_name call, get_team_chat s (cq_from_id call))"
  define s0 where "s0 = run_job jid now s"
  note fd = assms(1) [folded jid_def]
  note f = run_job_frame [OF fd assms(2)]
  have q0: "get_queue_array s0 (cq_team_id call) (cq_queue_name call) = Inr q"
    unfolding s0_def using get_queue_array_cong [OF f(3)] assms(3) by simp
  have c0: "get_team_chat s0 (cq_from_id call) = get_team_chat s (cq_from_id call)"
    unfolding s0_def by (rule get_team_chat_run_job [OF fd assms(2)])
  have n0: "\<not> has_job jid (sched s0)"
    unfolding s0_def by (simp add: f(5) has_job_filter)
  from swap_users_result [OF q0 assms(4)] obtain s' where s':
    "swap_users call s0 = Inr s'"
    "get_queue_array s' (cq_team_id call) (cq_queue_name call) = Inr q'"
    "trace s' = trace s0 @ [LogInfo ''Swapped two users successfully''] @
       (if has_job (cq_queue_name call, get_team_chat s0 (cq_from_id call)) (sched s0) then []
        else [LogInfo ''Someone pressed I can do it after the time limit.'']) @
       [DeleteReplyMarkup (cq_chat call) (cq_message_id call),
        SendSticker (cq_chat call) YAY_STICKER,
        SendMessage (cq_chat call)
          (SwappedText (cq_first_name call) ct_name (cq_queue_name call)) None,
        AnswerCallback (cq_from_id call)]"
    by blast
  from n0 have "\<not> has_job (cq_queue_name call, get_team_chat s0 (cq_from_id call)) (sched s0)"
    by (simp add: c0 jid_def)
  with s'(3) have "trace s' = trace s0 @
       [LogInfo ''Swapped two users successfully'',
        LogInfo ''Someone pressed I can do it after the time limit.'',
        DeleteReplyMarkup (cq_chat call) (cq_message_id call),
        SendSticker (cq_chat call) YAY_STICKER,
        SendMessage (cq_chat call)
          (SwappedText (cq_first_name call) ct_name (cq_queue_name call)) None,
        AnswerCallback (cq_from_id call)]"
    by simp
  with s'(1,2) show ?thesis unfolding s0_def jid_def by blast
qed


theorem late_substitution_applied_witness:
  "find (\<lambda>k. job_id k = (''dishes'', Some (- 100))) (sched escalated_bot) =
     Some \<lparr>job_id = (''dishes'', Some (- 100)), run_date = 7200000000,
           args = (- 100, ''Ann'', ''dishes'')\<rparr> \<and>
   (7200000000::int) \<le> get_later_time 0 \<and>
   get_queue_array escalated_bot 1 ''dishes'' = Inr scenario_queue \<and>
   (\<exists>s'. swap_users bo_call timed_out_bot = Inr s' \<and>
      get_queue_array s' 1 ''dishes'' =
        Inr [bo\<lparr>current_turn := True\<rparr>, ann\<lparr>current_turn := False\<rparr>, cy] \<and>
      trace s' = trace timed_out_bot @
        [LogInfo ''Swapped two users successfully'',
         LogInfo ''Someone pressed I can do it after the time limit.'',
         DeleteReplyMarkup (- 100) 11, SendSticker (- 100) YAY_STICKER,
         SendMessage (- 100) (SwappedText ''Bo'' ''Ann'' ''dishes'') None,
         AnswerCallback 2])"
proof -
  have fd: "find (\<lambda>k. job_id k = (cq_queue_name bo_call, get_team_chat escalated_bot (cq_from_id bo_call)))
             (sched escalated_bot) =
     Some \<lparr>job_id = (''dishes'', Some (- 100)), run_date = 7200000000,
           args = (- 100, ''Ann'', ''dishes'')\<rparr>"
    by (simp add: bo_call_fields scenario_stored_queue escalated_find)
  have due: "run_date \<lparr>job_id = (''dishes'', Some (- 100)), run_date = 7200000000,
           args = (- 100, ''Ann'', ''dishes'')\<rparr> \<le> get_later_time 0"
    by (simp add: get_later_time_def HOURS_def)
  have q: "get_queue_array escalated_bot (cq_team_id bo_call) (cq_queue_name bo_call) =
           Inr scenario_queue"
    by (simp add: bo_call_fields scenario_stored_queue)
  have sub: "substitute scenario_queue (cq_from_id bo_call) =
     Inr (Swapped ''Ann'' [bo\<lparr>current_turn := True\<rparr>, ann\<lparr>current_turn := False\<rparr>, cy])"
    by (simp add: bo_call_fields substitute_scenario_bo)
  have t: "run_job (cq_queue_name bo_call, get_team_chat escalated_bot (cq_from_id bo_call))
             (get_later_time 0) escalated_bot = timed_out_bot"
    by (simp add: timed_out_bot_def bo_call_fields scenario_stored_queue)
  note w = late_substitution_applied [OF fd due q sub, unfolded t]
  from w due show ?thesis
    by (simp add: bo_call_fields escalated_find scenario_stored_queue)
qed


subsection \<open>One timer for each conflict\<close>

text \<open>
  Claim C5. Let the initiator have a team with a group chat, let the queue
  name be stored for the initiator, and let the ids of the stored jobs be
  distinct. Then the escalation returns normally; afterwards exactly one job
  has the id of the queue and the group chat, with the run date two hours
  after the clock reading and with the chat, the initiator's name and the
  queue name as arguments; the ids of the stored jobs are still distinct; and
  the list of ids is the old one when a job with the id existed (the job was
  replaced) and the old one with the id appended otherwise.
\<close>

theorem escalation_arms_one_timer:
  assumes "users s (msg_from_id m) = Some team" and "team_chat s team = Some g" and "g \<noteq> 0"
    and "data_queue_name (fsm s (msg_chat m, msg_from_id m)) = Some qn"
    and "distinct (map job_id (sched s))"
  shows "\<exists>s'. inform_and_resolve now m s = Inr s' \<and>
     filter (\<lambda>k. job_id k = (qn, Some g)) (sched s') =
       [\<lparr>job_id = (qn, Some g), run_date = now + 2 * 3600000000,
         args = (g, msg_full_name m, qn)\<rparr>] \<and>
     distinct (map job_id (sched s')) \<and>
     map job_id (sched s') =
       (if has_job (qn, Some g) (sched s) then map job_id (sched s)
        else map job_id (sched s) @ [(qn, Some g)])"
proof -
  from inform_and_resolve_sched [OF assms(1-4)] obtain s' where
    r: "inform_and_resolve now m s = Inr s'"
    and sc: "sched s' = add_job (armed_job now m g qn) (sched s)"
    by blast
  have id: "job_id (armed_job now m g qn) = (qn, Some g)" by (simp add: armed_job_def)
  have a: "armed_job now m g qn =
      \<lparr>job_id = (qn, Some g), run_date = now + 2 * 3600000000,
       args = (g, msg_full_name m, qn)\<rparr>"
    by (simp add: armed_job_def get_later_time_def HOURS_def)
  have "filter (\<lambda>k. job_id k = (qn, Some g)) (sched s') = [armed_job now m g qn]"
    using filter_add_job [OF assms(5), of "armed_job now m g qn"] by (simp add: sc id)
  moreover have "distinct (map job_id (sched s'))"
    unfolding sc by (rule distinct_add_job [OF assms(5)])
  moreover have "map job_id (sched s') =
       (if has_job (qn, Some g) (sched s) then map job_id (sched s)
        else map job_id (sched s) @ [(qn, Some g)])"
    by (simp add: sc map_job_id_add_job id)
  ultimately show ?thesis using r by (simp add: a)
qed

theorem escalation_arms_one_timer_witness:
  "distinct (map job_id (sched (ask_for_reason ann_call escalated_bot))) \<and>
   has_job (''dishes'', Some (- 100)) (sched (ask_for_reason ann_call escalated_bot)) \<and>
   (\<exists>s'. inform_and_resolve 5 ann_reason (ask_for_reason ann_call escalated_bot) = Inr s' \<and>
      filter (\<lambda>k. job_id k = (''dishes'', Some (- 100))) (sched s') =
        [\<lparr>job_id = (''dishes'', Some (- 100)), run_date = 7200000005,
          args = (- 100, ''Ann'', ''dishes'')\<rparr>] \<and>
      map job_id (sched s') = [(''dishes'', Some (- 100))])"
proof -
  have u: "users (ask_for_reason ann_call escalated_bot) (msg_from_id ann_reason) = Some 1"
    by (simp add: escalated_bot_fields scenario_bot_fields ann_reason_fields)
  have c: "team_chat (ask_for_reason ann_call escalated_bot) 1 = Some (- 100)"
    by (simp add: escalated_bot_fields scenario_bot_fields)
  have n: "data_queue_name (fsm (ask_for_reason ann_call escalated_bot)
             (msg_chat ann_reason, msg_from_id ann_reason)) = Some ''dishes''"
    using ask_for_reason_simps(5) [of ann_call escalated_bot]
    by (simp add: ann_reason_fields ann_call_def)
  have d: "distinct (map job_id (sched (ask_for_reason ann_call escalated_bot)))"
    by (simp add: escalated_bot_fields)
  have "(- 100::int) \<noteq> 0" by simp
  from escalation_arms_one_timer [OF u c this n d, of 5]
  have "\<exists>s'. inform_and_resolve 5 ann_reason (ask_for_reason ann_call escalated_bot) = Inr s' \<and>
      filter (\<lambda>k. job_id k = (''dishes'', Some (- 100))) (sched s') =
        [\<lparr>job_id = (''dishes'', Some (- 100)), run_date = 7200000005,
          args = (- 100, ''Ann'', ''dishes'')\<rparr>] \<and>
      distinct (map job_id (sched s')) \<and>
      map job_id (sched s') = [(''dishes'', Some (- 100))]"
    by (simp add: has_job_def escalated_bot_fields ann_reason_fields)
  then obtain s' where s':
    "inform_and_resolve 5 ann_reason (ask_for_reason ann_call escalated_bot) = Inr s'"
    "filter (\<lambda>k. job_id k = (''dishes'', Some (- 100))) (sched s') =
        [\<lparr>job_id = (''dishes'', Some (- 100)), run_date = 7200000005,
          args = (- 100, ''Ann'', ''dishes'')\<rparr>]"
    "map job_id (sched s') = [(''dishes'', Some (- 100))]"
    by (elim exE conjE) (rule that, assumption+)
  have hj: "has_job (''dishes'', Some (- 100)) (sched (ask_for_reason ann_call escalated_bot))"
    by (simp add: has_job_def escalated_bot_fields)
  show ?thesis
    using d hj s' by (intro conjI exI [of _ s']) assumption+
qed

subsection \<open>A team member outside the queue\<close>

text \<open>
  Claim C6, evaluated where the code departs from it. Dee belongs to the team
  of the queue and is not the turn holder, so by the claim her attempt is
  valid. The handler turns it away with the sticker and the text telling her
  that she is not a part of the roommates group, the state being otherwise as
  before: it looks for the responder in the queue, where the comment on that
  branch speaks of the roommates group in the database.
\<close>

theorem team_member_rejected:
  "users joined_bot (cq_from_id dee_call) = Some (cq_team_id dee_call) \<and>
   get_queue_array joined_bot (cq_team_id dee_call) (cq_queue_name dee_call) =
     Inr [ann, bo, cy] \<and>
   get_current_turn [ann, bo, cy] = Some (1, ''Ann'', 0) \<and>
   cq_from_id dee_call \<noteq> 1 \<and>
   swap_users dee_call joined_bot =
     Inr (joined_bot\<lparr>trace :=
            [SendSticker (- 100) NOPE_STICKER, SendMessage (- 100) NotInGroupText None,
             AnswerCallback 4]\<rparr>)"
proof -
  have f: "cq_from_id dee_call = 4" "cq_team_id dee_call = 1"
    "cq_queue_name dee_call = ''dishes''" "cq_chat dee_call = - 100"
    by (simp_all add: dee_call_def)
  have u: "users joined_bot 4 = Some 1" by (simp add: joined_bot_def)
  have q: "get_queue_array joined_bot (cq_team_id dee_call) (cq_queue_name dee_call) =
           Inr scenario_queue"
    by (simp add: f get_queue_array_def joined_bot_def scenario_bot_fields)
  have "user_position scenario_queue 4 = None"
    by (simp add: user_position_def scenario_queue_def ann_def bo_def cy_def)
  then have sub: "substitute scenario_queue (cq_from_id dee_call) = Inr NotInGroup"
    by (simp add: substitute_def scenario_simps f)
  have t: "trace joined_bot = []" by (simp add: joined_bot_def scenario_bot_fields)
  from swap_users_not_in_group [OF q sub]
  have "swap_users dee_call joined_bot =
     Inr (joined_bot\<lparr>trace :=
            [SendSticker (- 100) NOPE_STICKER, SendMessage (- 100) NotInGroupText None,
             AnswerCallback 4]\<rparr>)"
    by (simp add: emit_def f t)
  with u q scenario_simps(1) show ?thesis by (simp add: f scenario_queue_def)
qed

subsection \<open>No group chat\<close>

text \<open>
  Claim C7 fails where it says that the reason is kept: for the team without
  a group chat, the handler ends in the same state whether the reason is
  ``sick'' or ``flu''. Before and after it, the stored data of the initiator
  are the waiting state and the queue name.
\<close>

theorem reason_not_retained_counterexample:
  "inform_and_resolve 0 (ann_reason\<lparr>msg_text := ''sick''\<rparr>) no_chat_bot =
     Inr (no_chat_bot\<lparr>trace := trace no_chat_bot @
            [SendMessage 1 NoGroupChatText (Some AddToGroupKeyboard)]\<rparr>) \<and>
   inform_and_resolve 0 (ann_reason\<lparr>msg_text := ''flu''\<rparr>) no_chat_bot =
     Inr (no_chat_bot\<lparr>trace := trace no_chat_bot @
            [SendMessage 1 NoGroupChatText (Some AddToGroupKeyboard)]\<rparr>) \<and>
   ''sick'' \<noteq> ''flu'' \<and>
   fsm no_chat_bot (1, 1) =
     \<lparr>current_state = Some TrackingQueue_waiting_for_reason,
      data_queue_name = Some ''dishes''\<rparr>"
proof -
  have u: "users no_chat_bot 1 = Some 1"
    by (simp add: no_chat_bot_def scenario_bot_fields)
  have c: "get_team_chat no_chat_bot 1 = None"
    by (simp add: get_team_chat_def no_chat_bot_def scenario_bot_fields)
  have r: "inform_and_resolve 0 (ann_reason\<lparr>msg_text := t\<rparr>) no_chat_bot =
     Inr (no_chat_bot\<lparr>trace := trace no_chat_bot @
            [SendMessage 1 NoGroupChatText (Some AddToGroupKeyboard)]\<rparr>)" for t
    using inform_and_resolve_no_chat [of no_chat_bot "ann_reason\<lparr>msg_text := t\<rparr>" 1 0]
    by (simp add: u c truthy_def ann_reason_fields emit_def)
  have f: "fsm no_chat_bot (1, 1) =
     \<lparr>current_state = Some TrackingQueue_waiting_for_reason,
      data_queue_name = Some ''dishes''\<rparr>"
    by (simp add: no_chat_bot_def ask_for_reason_def Let_def emit_def ann_call_def
        scenario_bot_def)
  show ?thesis using r [of "''sick''"] r [of "''flu''"] f by simp
qed


text \<open>
  Claim C7, amended. When the initiator has a team and the team has no group
  chat, the handler returns normally and the state differs from the one
  before in its list of effects only, which is extended by the one message to
  the initiator's own chat, with the keyboard for adding the bot to a group:
  nothing is sent to a group, no job is added, and the initiator's waiting
  state and queue name stay. The reason is not kept: the outcome is the same
  for every text of the message.
\<close>

theorem no_channel_no_escalation:
  assumes "users s (msg_from_id m) = Some team"
    and "\<not> truthy (get_team_chat s (msg_from_id m))"
  shows "inform_and_resolve now m s =
           Inr (s\<lparr>trace := trace s @
                  [SendMessage (msg_chat m) NoGroupChatText (Some AddToGroupKeyboard)]\<rparr>) \<and>
         inform_and_resolve now (m\<lparr>msg_text := reason\<rparr>) s = inform_and_resolve now m s"
proof -
  have "inform_and_resolve now (m\<lparr>msg_text := reason\<rparr>) s =
     Inr (emit [SendMessage (msg_chat m) NoGroupChatText (Some AddToGroupKeyboard)] s)"
    using inform_and_resolve_no_chat [of s "m\<lparr>msg_text := reason\<rparr>" team now] assms by simp
  with inform_and_resolve_no_chat [OF assms, of now] show ?thesis by (simp add: emit_def)
qed


theorem no_channel_no_escalation_witness:
  "users no_chat_bot (msg_from_id ann_reason) = Some 1 \<and>
   get_team_chat no_chat_bot (msg_from_id ann_reason) = None \<and>
   inform_and_resolve 0 ann_reason no_chat_bot =
     Inr (no_chat_bot\<lparr>trace := trace no_chat_bot @
            [SendMessage 1 NoGroupChatText (Some AddToGroupKeyboard)]\<rparr>) \<and>
   inform_and_resolve 0 (ann_reason\<lparr>msg_text := ''flu''\<rparr>) no_chat_bot =
     inform_and_resolve 0 ann_reason no_chat_bot"
proof -
  have u: "users no_chat_bot (msg_from_id ann_reason) = Some 1"
    by (simp add: no_chat_bot_def scenario_bot_fields ann_reason_fields)
  have c: "get_team_chat no_chat_bot (msg_from_id ann_reason) = None"
    by (simp add: get_team_chat_def no_chat_bot_def scenario_bot_fields ann_reason_fields)
  then have t: "\<not> truthy (get_team_chat no_chat_bot (msg_from_id ann_reason))"
    by (simp add: truthy_def)
  from no_channel_no_escalation [OF u t, of 0 "''flu''"] u c show ?thesis
    by (simp add: ann_reason_fields)
qed

end
